theory Spec2Isabelle
  imports Complex_Main "HOL-Library.Word" "HOL-Library.Sublist" "HOL-Library.AList"
begin

section \<open>Text and bytes\<close>

text \<open>
  The engine \<^verbatim>\<open>app/ai_engine.py\<close> receives the response body as \<^verbatim>\<open>bytes\<close> and works on
  \<^verbatim>\<open>str\<close>. A Python \<^verbatim>\<open>str\<close> is a sequence of Unicode code points, so text is a list of
  code points here; \<open>ascii\<close> writes an ASCII literal of the source as such a list.
\<close>

type_synonym byte = "8 word"
type_synonym ustr = "nat list"

definition ascii :: "string \<Rightarrow> ustr" where
  "ascii s = map of_char s"

definition bytes_of :: "string \<Rightarrow> byte list" where
  "bytes_of s = map of_char s"

subsection \<open>\<^verbatim>\<open>bytes.decode('utf-8', errors='ignore')\<close>\<close>

text \<open>
  The decoder of the standard library reads one well-formed UTF-8 sequence after the other
  (shortest form only, no surrogates, nothing above U+10FFFF). With the handler
  \<^verbatim>\<open>'ignore'\<close> the bytes of an ill-formed sequence are skipped. The skipped range is the
  longest prefix of a well-formed sequence; the bytes after its first are continuation
  bytes, which start no sequence, so skipping one byte at a time gives the same text.
  \<open>utf8_head\<close> is the sequence at the head of the input, its code point and its length;
  the bytes are read as the integers from 0 to 255 that Python sees in them.
\<close>

definition is_cont :: "nat \<Rightarrow> bool" where
  "is_cont b \<longleftrightarrow> 0x80 \<le> b \<and> b \<le> 0xBF"

definition cont_bits :: "nat \<Rightarrow> nat" where
  "cont_bits b = b - 0x80"

definition second_of3 :: "nat \<Rightarrow> nat \<Rightarrow> bool" where
  "second_of3 b0 b1 \<longleftrightarrow>
     (if b0 = 0xE0 then 0xA0 \<le> b1 \<and> b1 \<le> 0xBF
      else if b0 = 0xED then 0x80 \<le> b1 \<and> b1 \<le> 0x9F
      else is_cont b1)"

definition second_of4 :: "nat \<Rightarrow> nat \<Rightarrow> bool" where
  "second_of4 b0 b1 \<longleftrightarrow>
     (if b0 = 0xF0 then 0x90 \<le> b1 \<and> b1 \<le> 0xBF
      else if b0 = 0xF4 then 0x80 \<le> b1 \<and> b1 \<le> 0x8F
      else is_cont b1)"

fun head_of :: "nat list \<Rightarrow> (nat \<times> nat) option" where
  "head_of [] = None"
| "head_of (b0 # r) =
     (if b0 < 0x80 then Some (b0, 1)
      else if 0xC2 \<le> b0 \<and> b0 \<le> 0xDF then
        (case r of
           b1 # _ \<Rightarrow>
             if is_cont b1 then Some ((b0 - 0xC0) * 64 + cont_bits b1, 2) else None
         | _ \<Rightarrow> None)
      else if 0xE0 \<le> b0 \<and> b0 \<le> 0xEF then
        (case r of
           b1 # b2 # _ \<Rightarrow>
             if second_of3 b0 b1 \<and> is_cont b2
             then Some ((b0 - 0xE0) * 4096 + cont_bits b1 * 64 + cont_bits b2, 3)
             else None
         | _ \<Rightarrow> None)
      else if 0xF0 \<le> b0 \<and> b0 \<le> 0xF4 then
        (case r of
           b1 # b2 # b3 # _ \<Rightarrow>
             if second_of4 b0 b1 \<and> is_cont b2 \<and> is_cont b3
             then Some ((b0 - 0xF0) * 262144 + cont_bits b1 * 4096
                        + cont_bits b2 * 64 + cont_bits b3, 4)
             else None
         | _ \<Rightarrow> None)
      else None)"

definition utf8_head :: "byte list \<Rightarrow> (nat \<times> nat) option" where
  "utf8_head bs = head_of (map unat (take 4 bs))"

function utf8_decode_ignore :: "byte list \<Rightarrow> ustr" where
  "utf8_decode_ignore [] = []"
| "utf8_decode_ignore (b # bs) =
     (case utf8_head (b # bs) of
        None \<Rightarrow> utf8_decode_ignore bs
      | Some (cp, n) \<Rightarrow> cp # utf8_decode_ignore (drop (n - 1) bs))"
  by pat_completeness auto
termination
  by (relation "measure length") auto

subsection \<open>String methods\<close>

text \<open>
  \<^verbatim>\<open>str.split('\n')\<close> cuts at every line feed and always returns at least one piece;
  \<^verbatim>\<open>str.strip()\<close> removes the characters for which \<^verbatim>\<open>str.isspace\<close> holds from both ends.
\<close>

definition NL :: nat where
  "NL = 10"

fun split_nl :: "ustr \<Rightarrow> ustr list" where
  "split_nl [] = [[]]"
| "split_nl (c # cs) =
     (if c = NL then [] # split_nl cs
      else (case split_nl cs of
              [] \<Rightarrow> [[c]]
            | l # ls \<Rightarrow> (c # l) # ls))"

definition py_isspace :: "nat \<Rightarrow> bool" where
  "py_isspace c \<longleftrightarrow>
     (0x09 \<le> c \<and> c \<le> 0x0D) \<or> (0x1C \<le> c \<and> c \<le> 0x20) \<or> c = 0x85 \<or> c = 0xA0
     \<or> c = 0x1680 \<or> (0x2000 \<le> c \<and> c \<le> 0x200A) \<or> c = 0x2028 \<or> c = 0x2029
     \<or> c = 0x202F \<or> c = 0x205F \<or> c = 0x3000"

definition py_strip :: "ustr \<Rightarrow> ustr" where
  "py_strip s = rev (dropWhile py_isspace (rev (dropWhile py_isspace s)))"

definition startswith :: "ustr \<Rightarrow> ustr \<Rightarrow> bool" where
  "startswith s p \<longleftrightarrow> prefix p s"

section \<open>Python values and exceptions\<close>

text \<open>
  \<^verbatim>\<open>json.loads\<close> returns \<^verbatim>\<open>None\<close>, a \<^verbatim>\<open>bool\<close>, an \<^verbatim>\<open>int\<close>, a \<^verbatim>\<open>float\<close>, a \<^verbatim>\<open>str\<close>, a
  \<^verbatim>\<open>list\<close> or a \<^verbatim>\<open>dict\<close> with \<^verbatim>\<open>str\<close> keys. The engine only asks a float for its truth
  value, so a float is kept as the decimal number it was read from (\<open>FNear q\<close> is the
  double nearest to \<open>q\<close>), or as one of the three non-finite values. A \<^verbatim>\<open>dict\<close> is an
  association list in insertion order; a key's binding is its first one in the list.
\<close>

datatype pyfloat = FNear rat | FNaN | FInf bool

datatype json =
    JNull
  | JBool bool
  | JInt int
  | JFloat pyfloat
  | JStr ustr
  | JArr "json list"
  | JObj "(ustr \<times> json) list"

text \<open>
  An exception is named by the first \<^verbatim>\<open>except\<close> clause of \<^verbatim>\<open>_call_deepseek_api\<close> that
  matches it, and by its class where the engine's inner handlers or the interpreter tell
  them apart. \<open>NonException\<close> stands for the \<^verbatim>\<open>BaseException\<close>s outside \<^verbatim>\<open>Exception\<close>
  (a cancellation, an interpreter exit), which no clause of the outer handler matches.
\<close>

datatype pyexn =
    ClientConnectorError ustr
  | ClientError ustr
  | TimeoutError
  | JSONDecodeError ustr
  | AttributeError
  | TypeError
  | KeyError
  | IndexError
  | OtherException ustr
  | NonException ustr

fun is_Exception :: "pyexn \<Rightarrow> bool" where
  "is_Exception (NonException _) = False"
| "is_Exception _ = True"

definition bind :: "pyexn + 'a \<Rightarrow> ('a \<Rightarrow> pyexn + 'b) \<Rightarrow> pyexn + 'b" where
  "bind m f = (case m of Inl e \<Rightarrow> Inl e | Inr x \<Rightarrow> f x)"

text \<open>
  The parts of the standard library the engine calls and whose code is not the
  repository's: \<^verbatim>\<open>json.loads\<close> (an exception or a value), \<^verbatim>\<open>str()\<close> of a value that is
  not a \<^verbatim>\<open>str\<close>, and \<^verbatim>\<open>str()\<close> of an exception. Every operation of the engine takes them as
  \<open>lib\<close>; \<open>json_loads\<close> below is the decoder written out.
\<close>

record pylib =
  loads :: "ustr \<Rightarrow> pyexn + json"
  str_obj :: "json \<Rightarrow> ustr"
  str_exn :: "pyexn \<Rightarrow> ustr"

definition py_str :: "pylib \<Rightarrow> json \<Rightarrow> ustr" where
  "py_str lib v = (case v of JStr s \<Rightarrow> s | _ \<Rightarrow> str_obj lib v)"

subsection \<open>Truth value, \<^verbatim>\<open>len\<close>, \<^verbatim>\<open>.get\<close>, subscripts and \<^verbatim>\<open>in\<close>\<close>

text \<open>
  A float read from the decimal \<open>q\<close> is zero when \<open>q\<close> rounds to zero, that is when
  \<open>\<bar>q\<bar> \<le> 2 ^ -1075\<close> (half of the least subnormal, the tie going to the even zero).
\<close>

fun float_truthy :: "pyfloat \<Rightarrow> bool" where
  "float_truthy (FNear q) \<longleftrightarrow> 1 < \<bar>q\<bar> * 2 ^ 1075"
| "float_truthy FNaN \<longleftrightarrow> True"
| "float_truthy (FInf _) \<longleftrightarrow> True"

fun truthy :: "json \<Rightarrow> bool" where
  "truthy JNull \<longleftrightarrow> False"
| "truthy (JBool b) \<longleftrightarrow> b"
| "truthy (JInt i) \<longleftrightarrow> i \<noteq> 0"
| "truthy (JFloat f) \<longleftrightarrow> float_truthy f"
| "truthy (JStr s) \<longleftrightarrow> s \<noteq> []"
| "truthy (JArr xs) \<longleftrightarrow> xs \<noteq> []"
| "truthy (JObj kvs) \<longleftrightarrow> kvs \<noteq> []"

fun py_len :: "json \<Rightarrow> pyexn + nat" where
  "py_len (JStr s) = Inr (length s)"
| "py_len (JArr xs) = Inr (length xs)"
| "py_len (JObj kvs) = Inr (length (remdups (map fst kvs)))"
| "py_len _ = Inl TypeError"

text \<open>\<open>py_get v key d\<close> is \<^verbatim>\<open>v.get(key, d)\<close>: only a \<^verbatim>\<open>dict\<close> has the method.\<close>

fun py_get :: "json \<Rightarrow> ustr \<Rightarrow> json \<Rightarrow> pyexn + json" where
  "py_get (JObj kvs) key d = Inr (case map_of kvs key of Some v \<Rightarrow> v | None \<Rightarrow> d)"
| "py_get _ key d = Inl AttributeError"

text \<open>\<open>py_getitem_str v key\<close> is \<^verbatim>\<open>v[key]\<close> for a \<^verbatim>\<open>str\<close> key.\<close>

fun py_getitem_str :: "json \<Rightarrow> ustr \<Rightarrow> pyexn + json" where
  "py_getitem_str (JObj kvs) key =
     (case map_of kvs key of Some v \<Rightarrow> Inr v | None \<Rightarrow> Inl KeyError)"
| "py_getitem_str _ key = Inl TypeError"

text \<open>\<open>py_getitem_0 v\<close> is \<^verbatim>\<open>v[0]\<close>; no \<^verbatim>\<open>dict\<close> read from JSON has the key \<^verbatim>\<open>0\<close>.\<close>

fun py_getitem_0 :: "json \<Rightarrow> pyexn + json" where
  "py_getitem_0 (JArr []) = Inl IndexError"
| "py_getitem_0 (JArr (x # _)) = Inr x"
| "py_getitem_0 (JStr []) = Inl IndexError"
| "py_getitem_0 (JStr (c # _)) = Inr (JStr [c])"
| "py_getitem_0 (JObj _) = Inl KeyError"
| "py_getitem_0 _ = Inl TypeError"

text \<open>
  \<open>py_contains v key\<close> is \<^verbatim>\<open>key in v\<close> for a \<^verbatim>\<open>str\<close> key: a key of a \<^verbatim>\<open>dict\<close>, an element of
  a \<^verbatim>\<open>list\<close>, a substring of a \<^verbatim>\<open>str\<close>.
\<close>

fun py_contains :: "json \<Rightarrow> ustr \<Rightarrow> pyexn + bool" where
  "py_contains (JObj kvs) key = Inr (map_of kvs key \<noteq> None)"
| "py_contains (JArr xs) key = Inr (JStr key \<in> set xs)"
| "py_contains (JStr s) key = Inr (sublist key s)"
| "py_contains _ key = Inl TypeError"

text \<open>\<^verbatim>\<open>str(n)\<close> for an \<^verbatim>\<open>int\<close>: the decimal digits, with a minus sign below zero.\<close>

function digits :: "nat \<Rightarrow> ustr" where
  "digits n = (if n < 10 then [48 + n] else digits (n div 10) @ [48 + n mod 10])"
  by pat_completeness auto
termination
  by (relation "measure id") auto

declare digits.simps [simp del]

definition str_int :: "int \<Rightarrow> ustr" where
  "str_int i = (if i < 0 then 45 # digits (nat (- i)) else digits (nat i))"

section \<open>\<^verbatim>\<open>json.loads\<close> written out\<close>

text \<open>
  The decoder of the standard library at its defaults (\<^verbatim>\<open>strict=True\<close>, the constants
  \<^verbatim>\<open>NaN\<close>, \<^verbatim>\<open>Infinity\<close> and \<^verbatim>\<open>-Infinity\<close> accepted, a repeated key keeping its last
  value), for documents within the interpreter's limits on nesting depth and on the digits
  of an integer. It reads the text once into tokens and the tokens once into a value, so it
  is total by structural recursion. Every failure is a \<^verbatim>\<open>JSONDecodeError\<close>; the message is
  left empty.
\<close>

datatype token =
    TLBrace | TRBrace | TLBracket | TRBracket | TColon | TComma
  | TString ustr
  | TScalar json

datatype numphase = NMinus | NZero | NInt | NDot | NFrac | NE | NESign | NExp

record numacc =
  phase :: numphase
  neg :: bool
  mant :: nat
  nfrac :: nat
  eneg :: bool
  ex :: nat

datatype lexst =
    LStart
  | LString ustr bool
  | LEscape ustr bool
  | LHex ustr bool nat nat
  | LNumber numacc
  | LWord ustr
  | LFail

definition is_digit :: "nat \<Rightarrow> bool" where
  "is_digit c \<longleftrightarrow> 48 \<le> c \<and> c \<le> 57"

definition is_letter :: "nat \<Rightarrow> bool" where
  "is_letter c \<longleftrightarrow> (65 \<le> c \<and> c \<le> 90) \<or> (97 \<le> c \<and> c \<le> 122)"

definition hex_val :: "nat \<Rightarrow> nat option" where
  "hex_val c =
     (if 48 \<le> c \<and> c \<le> 57 then Some (c - 48)
      else if 65 \<le> c \<and> c \<le> 70 then Some (c - 55)
      else if 97 \<le> c \<and> c \<le> 102 then Some (c - 87)
      else None)"

definition json_ws :: "nat \<Rightarrow> bool" where
  "json_ws c \<longleftrightarrow> c = 32 \<or> c = 9 \<or> c = 10 \<or> c = 13"

definition num_start :: "numphase \<Rightarrow> bool \<Rightarrow> nat \<Rightarrow> numacc" where
  "num_start p n m = \<lparr>phase = p, neg = n, mant = m, nfrac = 0, eneg = False, ex = 0\<rparr>"

text \<open>Between two tokens: the character \<open>c\<close> starts a token, is blank, or is an error.\<close>

definition lex_start :: "token list \<Rightarrow> nat \<Rightarrow> token list \<times> lexst" where
  "lex_start ts c =
     (if json_ws c then (ts, LStart)
      else if c = 123 then (TLBrace # ts, LStart)
      else if c = 125 then (TRBrace # ts, LStart)
      else if c = 91 then (TLBracket # ts, LStart)
      else if c = 93 then (TRBracket # ts, LStart)
      else if c = 58 then (TColon # ts, LStart)
      else if c = 44 then (TComma # ts, LStart)
      else if c = 34 then (ts, LString [] False)
      else if c = 45 then (ts, LNumber (num_start NMinus True 0))
      else if c = 48 then (ts, LNumber (num_start NZero False 0))
      else if is_digit c then (ts, LNumber (num_start NInt False (c - 48)))
      else if is_letter c then (ts, LWord [c])
      else (ts, LFail))"

text \<open>
  A number is \<^verbatim>\<open>-?(0|[1-9][0-9]*)(\.[0-9]+)?([eE][-+]?[0-9]+)?\<close>: an \<^verbatim>\<open>int\<close> without
  fraction and exponent, a \<^verbatim>\<open>float\<close> otherwise.
\<close>

definition num_value :: "numacc \<Rightarrow> json" where
  "num_value a =
     (if phase a = NZero \<or> phase a = NInt
      then JInt (if neg a then - int (mant a) else int (mant a))
      else JFloat (FNear
        ((if neg a then - 1 else 1) * of_nat (mant a)
         * (if eneg a then 1 / 10 ^ ex a else 10 ^ ex a) / 10 ^ nfrac a)))"

definition num_final :: "numphase \<Rightarrow> bool" where
  "num_final p \<longleftrightarrow> p = NZero \<or> p = NInt \<or> p = NFrac \<or> p = NExp"

definition word_value :: "ustr \<Rightarrow> json option" where
  "word_value w =
     (if w = ascii ''null'' then Some JNull
      else if w = ascii ''true'' then Some (JBool True)
      else if w = ascii ''false'' then Some (JBool False)
      else if w = ascii ''NaN'' then Some (JFloat FNaN)
      else if w = ascii ''Infinity'' then Some (JFloat (FInf False))
      else if w = ascii ''-Infinity'' then Some (JFloat (FInf True))
      else None)"

definition lex_number :: "token list \<Rightarrow> numacc \<Rightarrow> nat \<Rightarrow> token list \<times> lexst" where
  "lex_number ts a c =
     (case phase a of
        NMinus \<Rightarrow>
          if c = 48 then (ts, LNumber (a\<lparr>phase := NZero\<rparr>))
          else if is_digit c then (ts, LNumber (a\<lparr>phase := NInt, mant := c - 48\<rparr>))
          else if c = 73 then (ts, LWord [73, 45])
          else (ts, LFail)
      | NDot \<Rightarrow>
          if is_digit c
          then (ts, LNumber (a\<lparr>phase := NFrac, mant := mant a * 10 + (c - 48), nfrac := 1\<rparr>))
          else (ts, LFail)
      | NE \<Rightarrow>
          if c = 43 then (ts, LNumber (a\<lparr>phase := NESign\<rparr>))
          else if c = 45 then (ts, LNumber (a\<lparr>phase := NESign, eneg := True\<rparr>))
          else if is_digit c then (ts, LNumber (a\<lparr>phase := NExp, ex := c - 48\<rparr>))
          else (ts, LFail)
      | NESign \<Rightarrow>
          if is_digit c then (ts, LNumber (a\<lparr>phase := NExp, ex := c - 48\<rparr>))
          else (ts, LFail)
      | NZero \<Rightarrow>
          if c = 46 then (ts, LNumber (a\<lparr>phase := NDot\<rparr>))
          else if c = 101 \<or> c = 69 then (ts, LNumber (a\<lparr>phase := NE\<rparr>))
          else lex_start (TScalar (num_value a) # ts) c
      | NInt \<Rightarrow>
          if is_digit c then (ts, LNumber (a\<lparr>mant := mant a * 10 + (c - 48)\<rparr>))
          else if c = 46 then (ts, LNumber (a\<lparr>phase := NDot\<rparr>))
          else if c = 101 \<or> c = 69 then (ts, LNumber (a\<lparr>phase := NE\<rparr>))
          else lex_start (TScalar (num_value a) # ts) c
      | NFrac \<Rightarrow>
          if is_digit c
          then (ts, LNumber (a\<lparr>mant := mant a * 10 + (c - 48), nfrac := nfrac a + 1\<rparr>))
          else if c = 101 \<or> c = 69 then (ts, LNumber (a\<lparr>phase := NE\<rparr>))
          else lex_start (TScalar (num_value a) # ts) c
      | NExp \<Rightarrow>
          if is_digit c then (ts, LNumber (a\<lparr>ex := ex a * 10 + (c - 48)\<rparr>))
          else lex_start (TScalar (num_value a) # ts) c)"

text \<open>
  Inside a string (its characters are kept in reverse; the flag says that the last one is
  a high surrogate written as \<^verbatim>\<open>\uXXXX\<close>, which a low surrogate written the same way
  completes to one code point). A control character is refused.
\<close>

definition escape_char :: "nat \<Rightarrow> nat option" where
  "escape_char c =
     (if c = 34 \<or> c = 92 \<or> c = 47 then Some c
      else if c = 98 then Some 8
      else if c = 102 then Some 12
      else if c = 110 then Some 10
      else if c = 114 then Some 13
      else if c = 116 then Some 9
      else None)"

definition hex_done :: "ustr \<Rightarrow> bool \<Rightarrow> nat \<Rightarrow> lexst" where
  "hex_done acc hi u =
     (if hi \<and> 0xDC00 \<le> u \<and> u \<le> 0xDFFF
      then (case acc of
              [] \<Rightarrow> LFail
            | h # acc' \<Rightarrow> LString ((0x10000 + (h - 0xD800) * 1024 + (u - 0xDC00)) # acc') False)
      else LString (u # acc) (0xD800 \<le> u \<and> u \<le> 0xDBFF))"

fun lex_step :: "token list \<times> lexst \<Rightarrow> nat \<Rightarrow> token list \<times> lexst" where
  "lex_step (ts, LStart) c = lex_start ts c"
| "lex_step (ts, LString acc hi) c =
     (if c = 34 then (TString (rev acc) # ts, LStart)
      else if c = 92 then (ts, LEscape acc hi)
      else if c < 32 then (ts, LFail)
      else (ts, LString (c # acc) False))"
| "lex_step (ts, LEscape acc hi) c =
     (if c = 117 then (ts, LHex acc hi 0 0)
      else (case escape_char c of
              Some d \<Rightarrow> (ts, LString (d # acc) False)
            | None \<Rightarrow> (ts, LFail)))"
| "lex_step (ts, LHex acc hi n v) c =
     (case hex_val c of
        None \<Rightarrow> (ts, LFail)
      | Some d \<Rightarrow>
          if n < 3 then (ts, LHex acc hi (n + 1) (v * 16 + d))
          else (ts, hex_done acc hi (v * 16 + d)))"
| "lex_step (ts, LNumber a) c = lex_number ts a c"
| "lex_step (ts, LWord w) c =
     (if is_letter c then (ts, LWord (c # w))
      else (case word_value (rev w) of
              Some v \<Rightarrow> lex_start (TScalar v # ts) c
            | None \<Rightarrow> (ts, LFail)))"
| "lex_step (ts, LFail) c = (ts, LFail)"

definition lex_end :: "token list \<times> lexst \<Rightarrow> token list option" where
  "lex_end st =
     (case st of
        (ts, LStart) \<Rightarrow> Some (rev ts)
      | (ts, LNumber a) \<Rightarrow>
          if num_final (phase a) then Some (rev (TScalar (num_value a) # ts)) else None
      | (ts, LWord w) \<Rightarrow>
          (case word_value (rev w) of Some v \<Rightarrow> Some (rev (TScalar v # ts)) | None \<Rightarrow> None)
      | _ \<Rightarrow> None)"

definition tokenize :: "ustr \<Rightarrow> token list option" where
  "tokenize s = lex_end (foldl lex_step ([], LStart) s)"

text \<open>
  The grammar over the tokens, with the stack of the containers that are still open: the
  elements of a \<^verbatim>\<open>list\<close> in reverse, the bindings of a \<^verbatim>\<open>dict\<close> and the key that waits
  for its value. \<open>AList.update\<close> overwrites a repeated key where it stands and appends a
  new one, as assignment to a \<^verbatim>\<open>dict\<close> does.
\<close>

datatype frame = ArrF "json list" | ObjF "(ustr \<times> json) list" "ustr option"

datatype expect = EValue | EValueOrClose | EKeyOrClose | EKey | EColon | ECommaOrClose | EDone | EFail

type_synonym pstate = "frame list \<times> expect \<times> json option"

definition wants_value :: "expect \<Rightarrow> bool" where
  "wants_value e \<longleftrightarrow> e = EValue \<or> e = EValueOrClose"

fun put_value :: "frame list \<Rightarrow> json \<Rightarrow> pstate" where
  "put_value [] v = ([], EDone, Some v)"
| "put_value (ArrF xs # st) v = (ArrF (v # xs) # st, ECommaOrClose, None)"
| "put_value (ObjF kvs (Some k) # st) v = (ObjF (AList.update k v kvs) None # st, ECommaOrClose, None)"
| "put_value (ObjF kvs None # st) v = (ObjF kvs None # st, EFail, None)"

fun parse_step :: "pstate \<Rightarrow> token \<Rightarrow> pstate" where
  "parse_step (st, e, r) (TScalar v) =
     (if wants_value e then put_value st v else (st, EFail, None))"
| "parse_step (st, e, r) (TString s) =
     (if wants_value e then put_value st (JStr s)
      else if e = EKey \<or> e = EKeyOrClose then
        (case st of
           ObjF kvs None # st' \<Rightarrow> (ObjF kvs (Some s) # st', EColon, None)
         | _ \<Rightarrow> (st, EFail, None))
      else (st, EFail, None))"
| "parse_step (st, e, r) TLBracket =
     (if wants_value e then (ArrF [] # st, EValueOrClose, None) else (st, EFail, None))"
| "parse_step (st, e, r) TLBrace =
     (if wants_value e then (ObjF [] None # st, EKeyOrClose, None) else (st, EFail, None))"
| "parse_step (st, e, r) TRBracket =
     (if e = EValueOrClose \<or> e = ECommaOrClose then
        (case st of
           ArrF xs # st' \<Rightarrow> put_value st' (JArr (rev xs))
         | _ \<Rightarrow> (st, EFail, None))
      else (st, EFail, None))"
| "parse_step (st, e, r) TRBrace =
     (if e = EKeyOrClose \<or> e = ECommaOrClose then
        (case st of
           ObjF kvs None # st' \<Rightarrow> put_value st' (JObj kvs)
         | _ \<Rightarrow> (st, EFail, None))
      else (st, EFail, None))"
| "parse_step (st, e, r) TColon =
     (if e = EColon then (st, EValue, None) else (st, EFail, None))"
| "parse_step (st, e, r) TComma =
     (if e = ECommaOrClose then
        (case st of
           ArrF xs # st' \<Rightarrow> (st, EValue, None)
         | ObjF kvs None # st' \<Rightarrow> (st, EKey, None)
         | _ \<Rightarrow> (st, EFail, None))
      else (st, EFail, None))"

definition parse_tokens :: "token list \<Rightarrow> json option" where
  "parse_tokens ts =
     (case foldl parse_step ([], EValue, None) ts of
        (st, EDone, Some v) \<Rightarrow> Some v
      | _ \<Rightarrow> None)"

definition json_loads :: "ustr \<Rightarrow> pyexn + json" where
  "json_loads s =
     (if startswith s [0xFEFF] then Inl (JSONDecodeError [])
      else (case tokenize s of
              None \<Rightarrow> Inl (JSONDecodeError [])
            | Some ts \<Rightarrow>
                (case parse_tokens ts of
                   None \<Rightarrow> Inl (JSONDecodeError [])
                 | Some v \<Rightarrow> Inr v)))"

section \<open>The translator\<close>

subsection \<open>The text literals of the source\<close>

text \<open>
  The literals of \<^verbatim>\<open>ai_engine.py\<close> that are not ASCII, as code points, each under the
  line it stands on.
\<close>

definition api_error_prefix :: ustr where
  \<comment> \<open>line 136, the text before \<^verbatim>\<open>{response.status}\<close>; a closing parenthesis follows it\<close>
  "api_error_prefix = [0x41, 0x50, 0x49, 0x9519, 0x8BEF, 0x20, 0x28, 0x48, 0x54, 0x54, 0x50, 0x20]"

definition system_error_prefix :: ustr where
  \<comment> \<open>line 145\<close>
  "system_error_prefix = [0x3010, 0x7CFB, 0x7EDF, 0x9519, 0x8BEF, 0x3011]"

definition network_error_prefix :: ustr where
  \<comment> \<open>line 204\<close>
  "network_error_prefix = [
      0x3010, 0x7F51, 0x7EDC, 0x9519, 0x8BEF, 0x3011, 0x65E0, 0x6CD5, 0x8FDE, 0x63A5, 0x5230, 0x44, 0x65, 0x65,
      0x70, 0x53, 0x65, 0x65, 0x6B, 0x20, 0x41, 0x50, 0x49, 0x3A, 0x20]"

definition checklist :: ustr where
  \<comment> \<open>line 205\<close>
  "checklist = [
      0x8BF7, 0x68C0, 0x67E5, 0xFF1A, 0xA, 0x31, 0x2E, 0x20, 0x7F51, 0x7EDC, 0x8FDE, 0x63A5, 0x662F, 0x5426,
      0x6B63, 0x5E38, 0xA, 0x32, 0x2E, 0x20, 0x41, 0x50, 0x49, 0x5730, 0x5740, 0x662F, 0x5426, 0x6B63,
      0x786E, 0xA, 0x33, 0x2E, 0x20, 0x9632, 0x706B, 0x5899, 0x8BBE, 0x7F6E]"

definition http_error_prefix :: ustr where
  \<comment> \<open>line 207\<close>
  "http_error_prefix = [
      0x3010, 0x48, 0x54, 0x54, 0x50, 0x9519, 0x8BEF, 0x3011, 0x8BF7, 0x6C42, 0x5931, 0x8D25, 0x3A, 0x20]"

definition timeout_message :: ustr where
  \<comment> \<open>line 209\<close>
  "timeout_message = [
      0x3010, 0x8D85, 0x65F6, 0x9519, 0x8BEF, 0x3011, 0x41, 0x50, 0x49, 0x8BF7, 0x6C42, 0x8D85, 0x65F6, 0xFF0C,
      0x8BF7, 0x7A0D, 0x540E, 0x91CD, 0x8BD5]"

definition unknown_error_prefix :: ustr where
  \<comment> \<open>line 211\<close>
  "unknown_error_prefix = [0x3010, 0x672A, 0x77E5, 0x9519, 0x8BEF, 0x3011, 0x3A, 0x20]"

definition pm_input_prompt :: ustr where
  \<comment> \<open>line 216\<close>
  "pm_input_prompt = [0x8BF7, 0x8F93, 0x5165, 0x6709, 0x6548, 0x7684, 0x4EA7, 0x54C1, 0x9700, 0x6C42]"

definition dev_input_prompt :: ustr where
  \<comment> \<open>line 226\<close>
  "dev_input_prompt = [0x8BF7, 0x8F93, 0x5165, 0x6709, 0x6548, 0x7684, 0x6280, 0x672F, 0x65B9, 0x6848]"

definition pm_to_dev_system :: ustr where
  \<comment> \<open>lines 85 to 93\<close>
  "pm_to_dev_system = [
      0x4F60, 0x662F, 0x4E00, 0x4F4D, 0x8D44, 0x6DF1, 0x6280, 0x672F, 0x67B6, 0x6784, 0x5E08, 0xFF0C, 0x64C5, 0x957F,
      0x5C06, 0x4E1A, 0x52A1, 0x9700, 0x6C42, 0x8F6C, 0x5316, 0x4E3A, 0x6280, 0x672F, 0x65B9, 0x6848, 0x3002, 0xA,
      0x20, 0x20, 0x20, 0x20, 0x20, 0x20, 0x20, 0x20, 0x20, 0x20, 0x20, 0x20, 0xA, 0x8BF7,
      0x786E, 0x4FDD, 0x56DE, 0x590D, 0x5305, 0x542B, 0x4EE5, 0x4E0B, 0x65B9, 0x9762, 0xFF1A, 0xA, 0x31, 0x2E,
      0x20, 0x2A, 0x2A, 0x6280, 0x672F, 0x5B9E, 0x73B0, 0x65B9, 0x6848, 0x2A, 0x2A, 0x20, 0x2D, 0x20,
      0x5177, 0x4F53, 0x6280, 0x672F, 0x6808, 0x3001, 0x7B97, 0x6CD5, 0x3001, 0x67B6, 0x6784, 0x8BBE, 0x8BA1, 0xA,
      0x32, 0x2E, 0x20, 0x2A, 0x2A, 0x6570, 0x636E, 0x6765, 0x6E90, 0x4E0E, 0x5904, 0x7406, 0x2A, 0x2A,
      0x20, 0x2D, 0x20, 0x6570, 0x636E, 0x91C7, 0x96C6, 0x3001, 0x6E05, 0x6D17, 0x3001, 0x5B58, 0x50A8, 0x65B9,
      0x6848, 0xA, 0x33, 0x2E, 0x20, 0x2A, 0x2A, 0x6027, 0x80FD, 0x8981, 0x6C42, 0x2A, 0x2A, 0x20,
      0x2D, 0x20, 0x54CD, 0x5E94, 0x65F6, 0x95F4, 0x3001, 0x5E76, 0x53D1, 0x91CF, 0x3001, 0x53, 0x4C, 0x41,
      0x6307, 0x6807, 0xA, 0x34, 0x2E, 0x20, 0x2A, 0x2A, 0x5DE5, 0x4F5C, 0x91CF, 0x8BC4, 0x4F30, 0x2A,
      0x2A, 0x20, 0x2D, 0x20, 0x4EBA, 0x5929, 0x4F30, 0x7B97, 0x3001, 0x6280, 0x672F, 0x98CE, 0x9669, 0x70B9,
      0xA, 0xA, 0x4F7F, 0x7528, 0x23, 0x23, 0x6807, 0x9898, 0x683C, 0x5F0F, 0x8FDB, 0x884C, 0x7ED3, 0x6784,
      0x5316, 0x56DE, 0x590D, 0xFF0C, 0x8BA9, 0x5F00, 0x53D1, 0x4EBA, 0x5458, 0x4E00, 0x76EE, 0x4E86, 0x7136, 0x3002]"

definition dev_to_pm_system :: ustr where
  \<comment> \<open>lines 98 to 105\<close>
  "dev_to_pm_system = [
      0x4F60, 0x662F, 0x4E00, 0x4F4D, 0x8D44, 0x6DF1, 0x4EA7, 0x54C1, 0x7ECF, 0x7406, 0xFF0C, 0x64C5, 0x957F, 0x5C06,
      0x6280, 0x672F, 0x65B9, 0x6848, 0x8F6C, 0x5316, 0x4E3A, 0x4E1A, 0x52A1, 0x4EF7, 0x503C, 0x3002, 0xA, 0x20,
      0x20, 0x20, 0x20, 0x20, 0x20, 0x20, 0x20, 0x20, 0x20, 0x20, 0x20, 0xA, 0x8BF7, 0x786E,
      0x4FDD, 0x56DE, 0x590D, 0x5305, 0x542B, 0x4EE5, 0x4E0B, 0x65B9, 0x9762, 0xFF1A, 0xA, 0x31, 0x2E, 0x20,
      0x2A, 0x2A, 0x7528, 0x6237, 0x4F53, 0x9A8C, 0x5F71, 0x54CD, 0x2A, 0x2A, 0x20, 0x2D, 0x20, 0x5BF9,
      0x7528, 0x6237, 0x4F7F, 0x7528, 0x4F53, 0x9A8C, 0x7684, 0x5177, 0x4F53, 0x6539, 0x5584, 0xA, 0x32, 0x2E,
      0x20, 0x2A, 0x2A, 0x4E1A, 0x52A1, 0x589E, 0x957F, 0x7A7A, 0x95F4, 0x2A, 0x2A, 0x20, 0x2D, 0x20,
      0x80FD, 0x5E26, 0x6765, 0x7684, 0x7528, 0x6237, 0x589E, 0x957F, 0x3001, 0x6536, 0x5165, 0x63D0, 0x5347, 0xA,
      0x33, 0x2E, 0x20, 0x2A, 0x2A, 0x5546, 0x4E1A, 0x4EF7, 0x503C, 0x2A, 0x2A, 0x20, 0x2D, 0x20,
      0x6210, 0x672C, 0x8282, 0x7701, 0x3001, 0x6548, 0x7387, 0x63D0, 0x5347, 0x3001, 0x98CE, 0x9669, 0x964D, 0x4F4E,
      0xA, 0xA, 0x4F7F, 0x7528, 0x901A, 0x4FD7, 0x6613, 0x61C2, 0x7684, 0x8BED, 0x8A00, 0xFF0C, 0x907F, 0x514D,
      0x6280, 0x672F, 0x672F, 0x8BED, 0xFF0C, 0x8BA9, 0x4EA7, 0x54C1, 0x7ECF, 0x7406, 0x5FEB, 0x901F, 0x7406, 0x89E3,
      0x4EF7, 0x503C, 0x3002]"

subsection \<open>Configuration, session and network\<close>

text \<open>
  The attributes \<^verbatim>\<open>__init__\<close> sets and nothing changes afterwards. The module
  \<^verbatim>\<open>app.prompts\<close> is not among the sources: what \<^verbatim>\<open>PM_TO_DEV_PROMPT.format(input=text)\<close> and
  \<^verbatim>\<open>DEV_TO_PM_PROMPT.format(input=text)\<close> give is a parameter, a function of the input text.
\<close>

record config =
  api_key :: ustr
  base_url :: ustr
  model :: ustr
  max_tokens :: int
  pm_to_dev_prompt :: "ustr \<Rightarrow> ustr"
  dev_to_pm_prompt :: "ustr \<Rightarrow> ustr"

text \<open>
  A request as \<^verbatim>\<open>session.post\<close> receives it, and the session it goes through. The state
  holds the attribute \<^verbatim>\<open>_session\<close> (\<^verbatim>\<open>None\<close> or a reference to a \<^verbatim>\<open>ClientSession\<close>), the
  \<^verbatim>\<open>closed\<close> flag of every \<^verbatim>\<open>ClientSession\<close> created so far (a reference is an index into
  that list, so a new session gets the next index), and the requests posted so far.
\<close>

record request =
  via :: nat
  url :: ustr
  headers :: "(ustr \<times> ustr) list"
  payload :: json

record state =
  session :: "nat option"
  closed :: "bool list"
  requests :: "request list"

text \<open>
  What the remote end does with a request: \<^verbatim>\<open>session.post\<close> raises, or gives a response
  with a status, with what \<^verbatim>\<open>await response.text()\<close> and \<^verbatim>\<open>await response.json()\<close> do, and
  with what \<^verbatim>\<open>response.content.iter_any()\<close> delivers: chunks of bytes, until the body ends
  or reading it raises.
\<close>

datatype body_event = Chunk "byte list" | Failure pyexn

record response =
  status :: int
  body_text :: "pyexn + ustr"
  body_json :: "pyexn + json"
  content :: "body_event list"

type_synonym network = "request \<Rightarrow> pyexn + response"

text \<open>
  What a generator does when it is run to its end: the fragments it yields, in order,
  and the exception that leaves it, if one does. \<open>then_gen\<close> runs a second generator
  after a first one that ended without exception.
\<close>

type_synonym gen = "json list \<times> pyexn option"

definition then_gen :: "gen \<Rightarrow> gen \<Rightarrow> gen" where
  "then_gen g h = (case g of (out, Some e) \<Rightarrow> (out, Some e) | (out, None) \<Rightarrow> (out @ fst h, snd h))"

subsection \<open>\<^verbatim>\<open>get_session\<close> and \<^verbatim>\<open>close\<close>\<close>

definition get_session :: "state \<Rightarrow> nat \<times> state" where
  "get_session st =
     (case session st of
        None \<Rightarrow>
          (length (closed st), st\<lparr>session := Some (length (closed st)), closed := closed st @ [False]\<rparr>)
      | Some r \<Rightarrow>
          if closed st ! r
          then (length (closed st),
                st\<lparr>session := Some (length (closed st)), closed := closed st @ [False]\<rparr>)
          else (r, st))"

definition close :: "state \<Rightarrow> state" where
  "close st =
     (case session st of
        None \<Rightarrow> st
      | Some r \<Rightarrow>
          if \<not> closed st ! r then st\<lparr>session := None, closed := (closed st)[r := True]\<rparr>
          else st)"

subsection \<open>\<^verbatim>\<open>_create_request_data\<close> and \<^verbatim>\<open>_create_messages\<close>\<close>

definition create_request_data :: "config \<Rightarrow> json \<Rightarrow> bool \<Rightarrow> pyfloat \<Rightarrow> json" where
  "create_request_data cfg messages stream temperature =
     JObj [(ascii ''model'', JStr (model cfg)),
           (ascii ''messages'', messages),
           (ascii ''stream'', JBool stream),
           (ascii ''temperature'', JFloat temperature),
           (ascii ''max_tokens'', JInt (max_tokens cfg)),
           (ascii ''top_p'', JFloat (FNear (9 / 10))),
           (ascii ''frequency_penalty'', JFloat (FNear 0)),
           (ascii ''presence_penalty'', JFloat (FNear 0))]"

definition create_messages :: "config \<Rightarrow> ustr \<Rightarrow> ustr \<Rightarrow> json" where
  "create_messages cfg text direction =
     (let (system_content, user_content) =
            (if direction = ascii ''pm-to-dev''
             then (pm_to_dev_system, pm_to_dev_prompt cfg text)
             else (dev_to_pm_system, dev_to_pm_prompt cfg text))
      in JArr [JObj [(ascii ''role'', JStr (ascii ''system'')),
                     (ascii ''content'', JStr system_content)],
               JObj [(ascii ''role'', JStr (ascii ''user'')),
                     (ascii ''content'', JStr user_content)]])"

subsection \<open>\<^verbatim>\<open>_call_deepseek_api\<close>: a status other than 200\<close>

text \<open>
  Lines 135 to 145. The bare \<^verbatim>\<open>except\<close> swallows whatever \<^verbatim>\<open>json.loads\<close>, \<^verbatim>\<open>in\<close> or a
  subscript raises, and \<open>error_msg\<close> keeps the text with the status. The f-string of line
  145 applies \<^verbatim>\<open>str()\<close> to \<open>error_msg\<close>, which is whatever the body had under
  \<^verbatim>\<open>error.message\<close>.
\<close>

definition extract_error_message :: "pylib \<Rightarrow> ustr \<Rightarrow> pyexn + json option" where
  "extract_error_message lib error_text =
     bind (loads lib error_text) (\<lambda>error_json.
     bind (py_contains error_json (ascii ''error'')) (\<lambda>has_error.
       if \<not> has_error then Inr None
       else
         bind (py_getitem_str error_json (ascii ''error'')) (\<lambda>err.
         bind (py_contains err (ascii ''message'')) (\<lambda>has_message.
           if \<not> has_message then Inr None
           else
             bind (py_getitem_str error_json (ascii ''error'')) (\<lambda>err'.
             bind (py_getitem_str err' (ascii ''message'')) (\<lambda>m. Inr (Some m)))))))"

definition error_fragment :: "pylib \<Rightarrow> int \<Rightarrow> ustr \<Rightarrow> json" where
  "error_fragment lib st error_text =
     (let error_msg = JStr (api_error_prefix @ str_int st @ ascii '')'') in
      JStr (system_error_prefix @
            py_str lib (case extract_error_message lib error_text of
                          Inr (Some m) \<Rightarrow> m
                        | _ \<Rightarrow> error_msg)))"

subsection \<open>\<^verbatim>\<open>_call_deepseek_api\<close>: the streamed body\<close>

text \<open>
  Lines 169 to 182, the body of the inner \<^verbatim>\<open>try\<close> after \<^verbatim>\<open>json.loads\<close>: the guard on
  \<^verbatim>\<open>choices\<close>, the fragment that \<^verbatim>\<open>delta.content\<close> yields, and the look at
  \<^verbatim>\<open>finish_reason\<close>, which does nothing with what it finds.
\<close>

definition has_choices :: "json \<Rightarrow> pyexn + bool" where
  "has_choices data_obj =
     bind (py_get data_obj (ascii ''choices'') JNull) (\<lambda>c.
       if \<not> truthy c then Inr False
       else
         bind (py_getitem_str data_obj (ascii ''choices'')) (\<lambda>choices.
         bind (py_len choices) (\<lambda>n. Inr (n > 0))))"

definition delta_content :: "json \<Rightarrow> pyexn + json list" where
  "delta_content data_obj =
     bind (py_getitem_str data_obj (ascii ''choices'')) (\<lambda>choices.
     bind (py_getitem_0 choices) (\<lambda>choice.
     bind (py_get choice (ascii ''delta'') (JObj [])) (\<lambda>delta.
       if \<not> truthy delta then Inr []
       else
         bind (py_contains delta (ascii ''content'')) (\<lambda>has_content.
           if \<not> has_content then Inr []
           else
             bind (py_getitem_str delta (ascii ''content'')) (\<lambda>content.
               Inr (if truthy content then [content] else []))))))"

definition finish_reason :: "json \<Rightarrow> pyexn + json" where
  "finish_reason data_obj =
     bind (py_getitem_str data_obj (ascii ''choices'')) (\<lambda>choices.
     bind (py_getitem_0 choices) (\<lambda>choice.
       py_get choice (ascii ''finish_reason'') JNull))"

definition handle_event :: "json \<Rightarrow> gen" where
  "handle_event data_obj =
     (case has_choices data_obj of
        Inl e \<Rightarrow> ([], Some e)
      | Inr False \<Rightarrow> ([], None)
      | Inr True \<Rightarrow>
          (case delta_content data_obj of
             Inl e \<Rightarrow> ([], Some e)
           | Inr out \<Rightarrow>
               (out, case finish_reason data_obj of Inl e \<Rightarrow> Some e | Inr _ \<Rightarrow> None)))"

text \<open>
  Lines 158 to 187, one complete line. A \<^verbatim>\<open>JSONDecodeError\<close> is printed and the loop goes
  on (standard output is not part of the state); any other exception leaves the loop.
\<close>

definition process_line :: "pylib \<Rightarrow> ustr \<Rightarrow> gen" where
  "process_line lib raw =
     (let line = py_strip raw in
      if line = [] then ([], None)
      else if startswith line (ascii ''data: '') then
        (let data_str = drop 6 line in
         if data_str = ascii ''[DONE]'' then ([], None)
         else
           (case loads lib data_str of
              Inl (JSONDecodeError m) \<Rightarrow> ([], None)
            | Inl e \<Rightarrow> ([], Some e)
            | Inr data_obj \<Rightarrow> handle_event data_obj))
      else ([], None))"

fun process_lines :: "pylib \<Rightarrow> ustr list \<Rightarrow> gen" where
  "process_lines lib [] = ([], None)"
| "process_lines lib (line # lines) = then_gen (process_line lib line) (process_lines lib lines)"

text \<open>
  Lines 152 to 190, one chunk: the fragments of the complete lines and the buffer kept
  for the next chunk. An empty chunk is passed over.
\<close>

definition process_chunk :: "pylib \<Rightarrow> ustr \<Rightarrow> byte list \<Rightarrow> gen \<times> ustr" where
  "process_chunk lib buffer chunk =
     (if chunk = [] then (([], None), buffer)
      else
        (let buffer' = buffer @ utf8_decode_ignore chunk;
             lines = split_nl buffer'
         in (process_lines lib (butlast lines), last lines)))"

fun stream_loop :: "pylib \<Rightarrow> ustr \<Rightarrow> body_event list \<Rightarrow> gen" where
  "stream_loop lib buffer [] = ([], None)"
| "stream_loop lib buffer (Failure e # events) = ([], Some e)"
| "stream_loop lib buffer (Chunk chunk # events) =
     (case process_chunk lib buffer chunk of
        (g, buffer') \<Rightarrow> then_gen g (stream_loop lib buffer' events))"

subsection \<open>\<^verbatim>\<open>_call_deepseek_api\<close>: the body that is not streamed\<close>

definition message_content :: "json \<Rightarrow> pyexn + json list" where
  "message_content result =
     bind (py_get result (ascii ''choices'') JNull) (\<lambda>c.
       if \<not> truthy c then Inr []
       else
         bind (py_getitem_str result (ascii ''choices'')) (\<lambda>choices.
         bind (py_len choices) (\<lambda>n.
           if \<not> n > 0 then Inr []
           else
             bind (py_getitem_0 choices) (\<lambda>choice.
             bind (py_get choice (ascii ''message'') JNull) (\<lambda>msg.
               if \<not> truthy msg then Inr []
               else
                 bind (py_getitem_str choice (ascii ''message'')) (\<lambda>msg'.
                 bind (py_get msg' (ascii ''content'') JNull) (\<lambda>c'.
                   if \<not> truthy c' then Inr []
                   else
                     bind (py_getitem_str msg' (ascii ''content'')) (\<lambda>content.
                       Inr (if truthy content then [content] else [])))))))))"

definition plain_body :: "pyexn + json \<Rightarrow> gen" where
  "plain_body r =
     (case bind r message_content of
        Inl e \<Rightarrow> ([], Some e)
      | Inr out \<Rightarrow> (out, None))"

subsection \<open>\<^verbatim>\<open>_call_deepseek_api\<close>: the whole call\<close>

text \<open>
  Lines 132 to 201, what stands inside the outer \<^verbatim>\<open>try\<close>, given what the network did
  with the request; then lines 203 to 211, the four \<^verbatim>\<open>except\<close> clauses in their order,
  which add their fragments after those the body had yielded.
\<close>

definition try_block :: "pylib \<Rightarrow> bool \<Rightarrow> pyexn + response \<Rightarrow> gen" where
  "try_block lib stream posted =
     (case posted of
        Inl e \<Rightarrow> ([], Some e)
      | Inr resp \<Rightarrow>
          if status resp \<noteq> 200 then
            (case body_text resp of
               Inl e \<Rightarrow> ([], Some e)
             | Inr error_text \<Rightarrow> ([error_fragment lib (status resp) error_text], None))
          else if stream then stream_loop lib [] (content resp)
          else plain_body (body_json resp))"

fun on_exception :: "pylib \<Rightarrow> pyexn \<Rightarrow> gen" where
  "on_exception lib (ClientConnectorError m) =
     ([JStr (network_error_prefix @ str_exn lib (ClientConnectorError m)), JStr checklist], None)"
| "on_exception lib (ClientError m) =
     ([JStr (http_error_prefix @ str_exn lib (ClientError m))], None)"
| "on_exception lib TimeoutError = ([JStr timeout_message], None)"
| "on_exception lib (NonException m) = ([], Some (NonException m))"
| "on_exception lib e = ([JStr (unknown_error_prefix @ str_exn lib e)], None)"

definition guarded :: "pylib \<Rightarrow> gen \<Rightarrow> gen" where
  "guarded lib g =
     (case g of
        (out, None) \<Rightarrow> (out, None)
      | (out, Some e) \<Rightarrow> (out @ fst (on_exception lib e), snd (on_exception lib e)))"

definition post_request :: "config \<Rightarrow> nat \<Rightarrow> json \<Rightarrow> bool \<Rightarrow> request" where
  "post_request cfg s messages stream =
     \<lparr>via = s,
      url = base_url cfg @ ascii ''/chat/completions'',
      headers =
        [(ascii ''Content-Type'', ascii ''application/json''),
         (ascii ''Authorization'', ascii ''Bearer '' @ api_key cfg),
         (ascii ''Accept'',
          if stream then ascii ''text/event-stream'' else ascii ''application/json'')],
      payload = create_request_data cfg messages stream (FNear (7 / 10))\<rparr>"

definition call_deepseek_api ::
  "pylib \<Rightarrow> config \<Rightarrow> network \<Rightarrow> json \<Rightarrow> bool \<Rightarrow> state \<Rightarrow> gen \<times> state" where
  "call_deepseek_api lib cfg net messages stream st =
     (case get_session st of
        (s, st1) \<Rightarrow>
          (let req = post_request cfg s messages stream
           in (guarded lib (try_block lib stream (net req)),
               st1\<lparr>requests := requests st1 @ [req]\<rparr>)))"

subsection \<open>The two directions, streamed and joined\<close>

definition translate_pm_to_dev_stream ::
  "pylib \<Rightarrow> config \<Rightarrow> network \<Rightarrow> ustr \<Rightarrow> state \<Rightarrow> gen \<times> state" where
  "translate_pm_to_dev_stream lib cfg net text st =
     (if text = [] \<or> py_strip text = [] then (([JStr pm_input_prompt], None), st)
      else call_deepseek_api lib cfg net (create_messages cfg text (ascii ''pm-to-dev'')) True st)"

definition translate_dev_to_pm_stream ::
  "pylib \<Rightarrow> config \<Rightarrow> network \<Rightarrow> ustr \<Rightarrow> state \<Rightarrow> gen \<times> state" where
  "translate_dev_to_pm_stream lib cfg net text st =
     (if text = [] \<or> py_strip text = [] then (([JStr dev_input_prompt], None), st)
      else call_deepseek_api lib cfg net (create_messages cfg text (ascii ''dev-to-pm'')) True st)"

text \<open>
  \<^verbatim>\<open>"".join(parts)\<close> raises a \<^verbatim>\<open>TypeError\<close> at an item that is not a \<^verbatim>\<open>str\<close>. With
  \<^verbatim>\<open>stream=True\<close> the two operations hand the generator back without running it; with the
  default they run it, collecting every fragment in \<open>content_parts\<close>, and join.
\<close>

fun py_join :: "json list \<Rightarrow> pyexn + ustr" where
  "py_join [] = Inr []"
| "py_join (JStr s # parts) = bind (py_join parts) (\<lambda>r. Inr (s @ r))"
| "py_join (_ # parts) = Inl TypeError"

datatype translation = Generator | Text ustr | Raised pyexn

definition collect :: "gen \<Rightarrow> translation" where
  "collect g =
     (let content_parts = foldl (\<lambda>parts chunk. parts @ [chunk]) [] (fst g) in
      case snd g of
        Some e \<Rightarrow> Raised e
      | None \<Rightarrow> (case py_join content_parts of Inl e \<Rightarrow> Raised e | Inr s \<Rightarrow> Text s))"

definition translate_pm_to_dev ::
  "pylib \<Rightarrow> config \<Rightarrow> network \<Rightarrow> ustr \<Rightarrow> bool \<Rightarrow> state \<Rightarrow> translation \<times> state" where
  "translate_pm_to_dev lib cfg net text stream st =
     (if stream then (Generator, st)
      else (case translate_pm_to_dev_stream lib cfg net text st of
              (g, st') \<Rightarrow> (collect g, st')))"

definition translate_dev_to_pm ::
  "pylib \<Rightarrow> config \<Rightarrow> network \<Rightarrow> ustr \<Rightarrow> bool \<Rightarrow> state \<Rightarrow> translation \<times> state" where
  "translate_dev_to_pm lib cfg net text stream st =
     (if stream then (Generator, st)
      else (case translate_dev_to_pm_stream lib cfg net text st of
              (g, st') \<Rightarrow> (collect g, st')))"

section \<open>What the specification speaks of\<close>

text \<open>
  The text the loop has received after a list of chunks, each decoded on its own as line
  153 does; the lines of a text that a line feed ends; what stands after its last line
  feed; and the buffer the loop holds once it has gone through the chunks.
\<close>

definition decoded :: "byte list list \<Rightarrow> ustr" where
  "decoded chunks = concat (map utf8_decode_ignore chunks)"

function complete_lines :: "ustr \<Rightarrow> ustr list" where
  "complete_lines t =
     (if NL \<in> set t
      then takeWhile (\<lambda>c. c \<noteq> NL) t # complete_lines (tl (dropWhile (\<lambda>c. c \<noteq> NL) t))
      else [])"
  by pat_completeness auto
termination
proof (relation "measure length")
  fix t :: ustr
  assume "NL \<in> set t"
  then have "dropWhile (\<lambda>c. c \<noteq> NL) t \<noteq> []"
    by simp
  then have "length (tl (dropWhile (\<lambda>c. c \<noteq> NL) t)) < length (dropWhile (\<lambda>c. c \<noteq> NL) t)"
    by simp
  also have "\<dots> \<le> length t"
    by (rule length_dropWhile_le)
  finally show "(tl (dropWhile (\<lambda>c. c \<noteq> NL) t), t) \<in> measure length"
    by simp
qed simp

declare complete_lines.simps [simp del]

definition residue :: "ustr \<Rightarrow> ustr" where
  "residue t = rev (takeWhile (\<lambda>c. c \<noteq> NL) (rev t))"

definition retained_buffer :: "pylib \<Rightarrow> byte list list \<Rightarrow> ustr" where
  "retained_buffer lib chunks = foldl (\<lambda>buffer chunk. snd (process_chunk lib buffer chunk)) [] chunks"

text \<open>The UTF-8 form of a text: what \<^verbatim>\<open>str.encode('utf-8')\<close> gives for scalar values.\<close>

definition encode_cp :: "nat \<Rightarrow> nat list" where
  "encode_cp cp =
     (if cp < 0x80 then [cp]
      else if cp < 0x800 then [0xC0 + cp div 64, 0x80 + cp mod 64]
      else if cp < 0x10000 then
        [0xE0 + cp div 4096, 0x80 + cp div 64 mod 64, 0x80 + cp mod 64]
      else
        [0xF0 + cp div 262144, 0x80 + cp div 4096 mod 64,
         0x80 + cp div 64 mod 64, 0x80 + cp mod 64])"

definition utf8_encode_cp :: "nat \<Rightarrow> byte list" where
  "utf8_encode_cp cp = map of_nat (encode_cp cp)"

definition utf8_encode :: "ustr \<Rightarrow> byte list" where
  "utf8_encode t = concat (map utf8_encode_cp t)"

text \<open>
  The field \<^verbatim>\<open>error.message\<close> of an error body: the body is JSON, an object whose member
  \<^verbatim>\<open>error\<close> is an object with a member \<^verbatim>\<open>message\<close>.
\<close>

definition error_field :: "pylib \<Rightarrow> ustr \<Rightarrow> json option" where
  "error_field lib body =
     (case loads lib body of
        Inr (JObj members) \<Rightarrow>
          (case map_of members (ascii ''error'') of
             Some (JObj error_members) \<Rightarrow> map_of error_members (ascii ''message'')
           | _ \<Rightarrow> None)
      | _ \<Rightarrow> None)"

section \<open>Concrete surroundings\<close>

text \<open>
  For the theorems at concrete inputs: the library with \<open>json_loads\<close> for \<^verbatim>\<open>json.loads\<close>
  (\<^verbatim>\<open>str()\<close> of an exception is the text it carries; \<^verbatim>\<open>str()\<close> of a value is written out
  for \<^verbatim>\<open>None\<close>, \<^verbatim>\<open>bool\<close> and \<^verbatim>\<open>int\<close> only), a configuration with the defaults of
  \<^verbatim>\<open>__init__\<close> and templates that hand the input through, the state \<^verbatim>\<open>__init__\<close> leaves, and
  a remote end that answers every request with the same response.
\<close>

fun exn_text :: "pyexn \<Rightarrow> ustr" where
  "exn_text (ClientConnectorError m) = m"
| "exn_text (ClientError m) = m"
| "exn_text (JSONDecodeError m) = m"
| "exn_text (OtherException m) = m"
| "exn_text (NonException m) = m"
| "exn_text _ = []"

fun value_text :: "json \<Rightarrow> ustr" where
  "value_text JNull = ascii ''None''"
| "value_text (JBool b) = (if b then ascii ''True'' else ascii ''False'')"
| "value_text (JInt i) = str_int i"
| "value_text (JStr s) = s"
| "value_text _ = []"

definition std_lib :: pylib where
  "std_lib = \<lparr>loads = json_loads, str_obj = value_text, str_exn = exn_text\<rparr>"

definition default_config :: config where
  "default_config =
     \<lparr>api_key = ascii ''sk-0000'',
      base_url = ascii ''https://api.deepseek.com'',
      model = ascii ''deepseek-chat'',
      max_tokens = 2000,
      pm_to_dev_prompt = (\<lambda>text. text),
      dev_to_pm_prompt = (\<lambda>text. text)\<rparr>"

definition initial_state :: state where
  "initial_state = \<lparr>session = None, closed = [], requests = []\<rparr>"

definition answer :: "int \<Rightarrow> ustr \<Rightarrow> byte list list \<Rightarrow> network" where
  "answer code body chunks =
     (\<lambda>req. Inr \<lparr>status = code, body_text = Inr body, body_json = json_loads body,
                content = map Chunk chunks\<rparr>)"

text \<open>
  A remote end at which \<^verbatim>\<open>session.post\<close> raises, and one whose body breaks off with an
  exception after some chunks.
\<close>

definition failing :: "pyexn \<Rightarrow> network" where
  "failing e = (\<lambda>req. Inl e)"

definition breaking :: "byte list list \<Rightarrow> pyexn \<Rightarrow> network" where
  "breaking chunks e =
     (\<lambda>req. Inr \<lparr>status = 200, body_text = Inr [], body_json = json_loads [],
                content = map Chunk chunks @ [Failure e]\<rparr>)"

text \<open>
  A streamed body of two events and the end marker, cut inside the second line.
\<close>

definition sample_chunks :: "byte list list" where
  "sample_chunks =
     [bytes_of ''data: {\"choices\":[{\"delta\":{\"content\":\"AB\"}}]}\<newline>da'',
      bytes_of ''ta: {\"choices\":[{\"delta\":{\"content\":\"C\"},\"finish_reason\":\"stop\"}]}\<newline>data: [DONE]\<newline>'']"

text \<open>
  A streamed body whose second line is \<^verbatim>\<open>data: {not json\<close>, cut inside that line, and the
  same body without the line.
\<close>

definition mixed_chunks :: "byte list list" where
  "mixed_chunks =
     [bytes_of ''data: {\"choices\":[{\"delta\":{\"content\":\"A\"}}]}\<newline>data: {not'',
      bytes_of '' json\<newline>data: {\"choices\":[{\"delta\":{\"content\":\"B\"}}]}\<newline>'']"

definition clean_chunks :: "byte list list" where
  "clean_chunks =
     [bytes_of ''data: {\"choices\":[{\"delta\":{\"content\":\"A\"}}]}\<newline>'',
      bytes_of ''data: {\"choices\":[{\"delta\":{\"content\":\"B\"}}]}\<newline>'']"

text \<open>A last event that no line feed ends, in two chunks.\<close>

definition unterminated_chunks :: "byte list list" where
  "unterminated_chunks =
     [bytes_of ''data: {\"choices\":[{\"delta\":'', bytes_of ''{\"content\":\"C\"}}]}'']"

text \<open>
  A streamed body whose one event holds the character U+597D, in UTF-8 the three bytes
  E5 A5 BD: in one chunk, and cut after the first of the three bytes.
\<close>

definition hao_whole :: "byte list list" where
  "hao_whole =
     [bytes_of ''data: {\"choices\":[{\"delta\":{\"content\":\"'' @ [0xE5, 0xA5, 0xBD]
      @ bytes_of ''\"}}]}\<newline>data: [DONE]\<newline>'']"

definition hao_split :: "byte list list" where
  "hao_split =
     [bytes_of ''data: {\"choices\":[{\"delta\":{\"content\":\"'' @ [0xE5],
      [0xA5, 0xBD] @ bytes_of ''\"}}]}\<newline>data: [DONE]\<newline>'']"

section \<open>Evaluation at concrete inputs\<close>

lemmas text_defs = ascii_def bytes_of_def NL_def py_strip_def py_isspace_def startswith_def

lemmas utf8_defs = utf8_head_def is_cont_def cont_bits_def second_of3_def second_of4_def

lemmas json_defs = json_loads_def tokenize_def lex_end_def lex_start_def lex_number_def
  num_start_def num_value_def num_final_def word_value_def escape_char_def hex_done_def
  hex_val_def is_digit_def is_letter_def json_ws_def parse_tokens_def wants_value_def

lemmas event_defs = process_chunk_def process_line_def handle_event_def has_choices_def
  delta_content_def finish_reason_def bind_def then_gen_def

lemmas call_defs = call_deepseek_api_def get_session_def try_block_def guarded_def
  answer_def initial_state_def

lemma sample_stream:
  "stream_loop std_lib [] (map Chunk sample_chunks) = (map JStr [ascii ''AB'', ascii ''C''], None)"
  by (simp add: sample_chunks_def std_lib_def text_defs utf8_defs json_defs event_defs)

lemma strip_x: "ascii ''x'' \<noteq> []" "py_strip (ascii ''x'') \<noteq> []"
  by (simp_all add: text_defs)

lemma sample_pm_to_dev:
  "fst (translate_pm_to_dev_stream std_lib default_config (answer 200 [] sample_chunks)
          (ascii ''x'') initial_state)
     = (map JStr [ascii ''AB'', ascii ''C''], None)"
  by (simp add: translate_pm_to_dev_stream_def strip_x call_defs sample_stream)

lemma sample_dev_to_pm:
  "fst (translate_dev_to_pm_stream std_lib default_config (answer 200 [] sample_chunks)
          (ascii ''x'') initial_state)
     = (map JStr [ascii ''AB'', ascii ''C''], None)"
  by (simp add: translate_dev_to_pm_stream_def strip_x call_defs sample_stream)

section \<open>The session\<close>

text \<open>
  C9. \<^verbatim>\<open>close()\<close> on a translator whose session is closed already, or that has none, changes
  nothing, and a second \<^verbatim>\<open>close()\<close> changes nothing after a first. After \<^verbatim>\<open>close()\<close>,
  \<^verbatim>\<open>get_session()\<close> creates a session: its reference is the next one that was never
  given out, it is what \<^verbatim>\<open>_session\<close> holds from then on, and it is not closed.
\<close>

theorem close_idempotent_session_recreated:
  "close (close st) = close st
   \<and> ((session st = None \<or> (\<exists>r. session st = Some r \<and> closed st ! r)) \<longrightarrow> close st = st)
   \<and> fst (get_session (close st)) = length (closed st)
   \<and> session (snd (get_session (close st))) = Some (length (closed st))
   \<and> \<not> closed (snd (get_session (close st))) ! length (closed st)"
proof (cases "session st")
  case None
  then show ?thesis
    by (simp add: close_def get_session_def)
next
  case (Some r)
  show ?thesis
  proof (cases "closed st ! r")
    case True
    with Some show ?thesis
      by (simp add: close_def get_session_def)
  next
    case False
    with Some have "close st = st\<lparr>session := None, closed := (closed st)[r := True]\<rparr>"
      by (simp add: close_def)
    with Some False show ?thesis
      by (simp add: close_def get_session_def nth_append)
  qed
qed

theorem close_idempotent_session_recreated_witness:
  "close \<lparr>session = Some 0, closed = [True], requests = []\<rparr>
     = \<lparr>session = Some 0, closed = [True], requests = []\<rparr>
   \<and> close (close \<lparr>session = Some 0, closed = [False], requests = []\<rparr>)
     = \<lparr>session = None, closed = [True], requests = []\<rparr>
   \<and> get_session (close \<lparr>session = Some 0, closed = [False], requests = []\<rparr>)
     = (1, \<lparr>session = Some 1, closed = [True, False], requests = []\<rparr>)"
  using close_idempotent_session_recreated [of "\<lparr>session = Some 0, closed = [True], requests = []\<rparr>"]
        close_idempotent_session_recreated [of "\<lparr>session = Some 0, closed = [False], requests = []\<rparr>"]
  by (simp add: close_def get_session_def)

section \<open>Blank input\<close>

lemma blank_strip: "\<forall>c \<in> set s. py_isspace c \<Longrightarrow> py_strip s = []"
  by (auto simp add: py_strip_def dest: set_dropWhileD)

text \<open>
  C7. For an input text that is empty or holds only whitespace, each of the two streaming
  operations yields one fragment, the request for valid input, and ends; the state is the
  one it started from, so no session was created and no request was posted, whatever the
  network would have answered.
\<close>

theorem blank_input_prompt_no_request:
  assumes "\<forall>c \<in> set text. py_isspace c"
  shows "translate_pm_to_dev_stream lib cfg net text st = (([JStr pm_input_prompt], None), st)
       \<and> translate_dev_to_pm_stream lib cfg net text st = (([JStr dev_input_prompt], None), st)"
  using assms
  by (simp add: translate_pm_to_dev_stream_def translate_dev_to_pm_stream_def blank_strip)

theorem blank_input_prompt_no_request_witness:
  "translate_pm_to_dev_stream std_lib default_config (answer 200 [] sample_chunks)
         [0x20, 0x09, 0x3000, 0x0A] initial_state
       = (([JStr pm_input_prompt], None), initial_state)
   \<and> translate_dev_to_pm_stream std_lib default_config (answer 200 [] sample_chunks)
         [0x20, 0x09, 0x3000, 0x0A] initial_state
       = (([JStr dev_input_prompt], None), initial_state)
   \<and> requests (snd (translate_dev_to_pm_stream std_lib default_config
         (answer 200 [] sample_chunks) [0x20, 0x09, 0x3000, 0x0A] initial_state)) = []"
proof -
  have h: "\<forall>c \<in> set [0x20, 0x09, 0x3000, 0x0A]. py_isspace c"
    by (simp add: py_isspace_def)
  show ?thesis
    using blank_input_prompt_no_request
            [OF h, of std_lib default_config "answer 200 [] sample_chunks" initial_state]
    by (simp add: initial_state_def)
qed

section \<open>Joined translation\<close>

lemma py_join_strs: "py_join (map JStr ps) = Inr (concat ps)"
  by (induction ps) (simp_all add: bind_def)

lemma foldl_snoc: "foldl (\<lambda>parts chunk. parts @ [chunk]) acc xs = acc @ xs"
  by (induction xs arbitrary: acc) simp_all

lemma collect_strs: "collect (map JStr ps, None) = Text (concat ps)"
  by (simp add: collect_def foldl_snoc py_join_strs)

text \<open>
  C6. When the streaming operation, run to its end on an input, yields the text fragments
  \<open>ps\<close>, the operation with \<^verbatim>\<open>stream=False\<close> on the same input, in the same state and
  against the same network, returns their concatenation in order and leaves the same
  state; this holds for both directions.
\<close>

theorem buffered_equals_concatenation:
  "(fst (translate_pm_to_dev_stream lib cfg net text st) = (map JStr ps, None) \<longrightarrow>
      translate_pm_to_dev lib cfg net text False st
        = (Text (concat ps), snd (translate_pm_to_dev_stream lib cfg net text st)))
   \<and> (fst (translate_dev_to_pm_stream lib cfg net text st) = (map JStr ps, None) \<longrightarrow>
      translate_dev_to_pm lib cfg net text False st
        = (Text (concat ps), snd (translate_dev_to_pm_stream lib cfg net text st)))"
  by (auto simp add: translate_pm_to_dev_def translate_dev_to_pm_def collect_strs
           split: prod.splits)

theorem buffered_equals_concatenation_witness:
  "fst (translate_pm_to_dev_stream std_lib default_config (answer 200 [] sample_chunks)
          (ascii ''x'') initial_state) = (map JStr [ascii ''AB'', ascii ''C''], None)
   \<and> fst (translate_pm_to_dev std_lib default_config (answer 200 [] sample_chunks)
          (ascii ''x'') False initial_state) = Text (ascii ''ABC'')
   \<and> fst (translate_dev_to_pm_stream std_lib default_config (answer 200 [] sample_chunks)
          (ascii ''x'') initial_state) = (map JStr [ascii ''AB'', ascii ''C''], None)
   \<and> fst (translate_dev_to_pm std_lib default_config (answer 200 [] sample_chunks)
          (ascii ''x'') False initial_state) = Text (ascii ''ABC'')"
  using buffered_equals_concatenation
          [of std_lib default_config "answer 200 [] sample_chunks" "ascii ''x''" initial_state
              "[ascii ''AB'', ascii ''C'']"]
        sample_pm_to_dev sample_dev_to_pm
  by (simp add: ascii_def)

section \<open>The streaming loop\<close>

subsection \<open>Lines and what is left after them\<close>

lemma split_nl_nonempty: "split_nl t \<noteq> []"
  by (induction t) (auto split: list.splits)

lemma split_nl_unfold:
  "split_nl t =
     (if NL \<in> set t
      then takeWhile (\<lambda>c. c \<noteq> NL) t # split_nl (tl (dropWhile (\<lambda>c. c \<noteq> NL) t))
      else [t])"
proof (induction t)
  case Nil
  show ?case by simp
next
  case (Cons c cs)
  show ?case
  proof (cases "c = NL")
    case True
    then show ?thesis by simp
  next
    case False
    with Cons show ?thesis by (auto split: list.splits)
  qed
qed

lemma complete_lines_no_nl: "NL \<notin> set t \<Longrightarrow> complete_lines t = []"
  by (subst complete_lines.simps) simp

lemma butlast_split_nl: "butlast (split_nl t) = complete_lines t"
proof (induction t rule: complete_lines.induct)
  case (1 t)
  show ?case
  proof (cases "NL \<in> set t")
    case True
    with 1 show ?thesis
      by (subst split_nl_unfold, subst complete_lines.simps) (simp add: split_nl_nonempty)
  next
    case False
    then show ?thesis
      by (subst split_nl_unfold) (simp add: complete_lines_no_nl)
  qed
qed

lemma takeWhile_all: "NL \<notin> set t \<Longrightarrow> takeWhile (\<lambda>c. c \<noteq> NL) t = t"
  by (induction t) auto

lemma residue_no_nl:
  assumes "NL \<notin> set t"
  shows "residue t = t"
proof -
  have "takeWhile (\<lambda>c. c \<noteq> NL) (rev t) = rev t"
    using assms by (intro takeWhile_all) simp
  then show ?thesis
    by (simp only: residue_def rev_rev_ident)
qed

lemma residue_after_nl: "residue (a @ NL # b) = residue b"
proof (cases "NL \<in> set b")
  case True
  then have "takeWhile (\<lambda>c. c \<noteq> NL) (rev b @ NL # rev a) = takeWhile (\<lambda>c. c \<noteq> NL) (rev b)"
    by (intro takeWhile_append1 [of NL]) simp_all
  then show ?thesis by (simp add: residue_def)
next
  case False
  then have "takeWhile (\<lambda>c. c \<noteq> NL) (rev b @ NL # rev a) = rev b @ takeWhile (\<lambda>c. c \<noteq> NL) (NL # rev a)"
    by (intro takeWhile_append2) auto
  then have "takeWhile (\<lambda>c. c \<noteq> NL) (rev (a @ NL # b)) = rev b"
    by simp
  then have "residue (a @ NL # b) = b"
    by (simp only: residue_def rev_rev_ident)
  with False show ?thesis
    by (simp add: residue_no_nl)
qed

lemma split_at_first_nl:
  assumes "NL \<in> set t"
  shows "t = takeWhile (\<lambda>c. c \<noteq> NL) t @ NL # tl (dropWhile (\<lambda>c. c \<noteq> NL) t)"
proof -
  have ne: "dropWhile (\<lambda>c. c \<noteq> NL) t \<noteq> []"
    using assms by simp
  then have "\<not> (hd (dropWhile (\<lambda>c. c \<noteq> NL) t) \<noteq> NL)"
    by (rule hd_dropWhile)
  with ne have "dropWhile (\<lambda>c. c \<noteq> NL) t = NL # tl (dropWhile (\<lambda>c. c \<noteq> NL) t)"
    by (cases "dropWhile (\<lambda>c. c \<noteq> NL) t") simp_all
  then have "takeWhile (\<lambda>c. c \<noteq> NL) t @ NL # tl (dropWhile (\<lambda>c. c \<noteq> NL) t)
               = takeWhile (\<lambda>c. c \<noteq> NL) t @ dropWhile (\<lambda>c. c \<noteq> NL) t"
    by simp
  then show ?thesis by (simp only: takeWhile_dropWhile_id)
qed

lemma residue_tail:
  assumes "NL \<in> set t"
  shows "residue (tl (dropWhile (\<lambda>c. c \<noteq> NL) t)) = residue t"
proof -
  have "residue t = residue (takeWhile (\<lambda>c. c \<noteq> NL) t @ NL # tl (dropWhile (\<lambda>c. c \<noteq> NL) t))"
    using split_at_first_nl [OF assms] by simp
  then show ?thesis by (simp only: residue_after_nl)
qed

lemma last_split_nl: "last (split_nl t) = residue t"
proof (induction t rule: complete_lines.induct)
  case (1 t)
  show ?case
  proof (cases "NL \<in> set t")
    case True
    with 1 show ?thesis
      by (subst split_nl_unfold) (simp add: split_nl_nonempty residue_tail)
  next
    case False
    then show ?thesis
      by (subst split_nl_unfold) (simp add: residue_no_nl)
  qed
qed

lemma residue_has_no_nl: "NL \<notin> set (residue t)"
proof
  assume "NL \<in> set (residue t)"
  then have "NL \<in> set (takeWhile (\<lambda>c. c \<noteq> NL) (rev t))"
    by (simp add: residue_def)
  then show False
    by (auto dest: set_takeWhileD)
qed


lemma complete_lines_append:
  "complete_lines (t @ d) = complete_lines t @ complete_lines (residue t @ d)"
proof (induction t rule: complete_lines.induct)
  case (1 t)
  show ?case
  proof (cases "NL \<in> set t")
    case True
    have tw: "takeWhile (\<lambda>c. c \<noteq> NL) (t @ d) = takeWhile (\<lambda>c. c \<noteq> NL) t"
      using True by (intro takeWhile_append1 [of NL]) simp_all
    have dw: "dropWhile (\<lambda>c. c \<noteq> NL) (t @ d) = dropWhile (\<lambda>c. c \<noteq> NL) t @ d"
      using True by (intro dropWhile_append1 [of NL]) simp_all
    have ne: "dropWhile (\<lambda>c. c \<noteq> NL) t \<noteq> []" using True by simp
    have "complete_lines (t @ d)
            = takeWhile (\<lambda>c. c \<noteq> NL) t # complete_lines (tl (dropWhile (\<lambda>c. c \<noteq> NL) t) @ d)"
      using True ne by (subst complete_lines.simps) (simp add: tw dw)
    also have "\<dots> = takeWhile (\<lambda>c. c \<noteq> NL) t #
                  (complete_lines (tl (dropWhile (\<lambda>c. c \<noteq> NL) t))
                   @ complete_lines (residue (tl (dropWhile (\<lambda>c. c \<noteq> NL) t)) @ d))"
      using 1 True by simp
    also have "\<dots> = complete_lines t @ complete_lines (residue t @ d)"
      using True by (subst (3) complete_lines.simps) (simp add: residue_tail)
    finally show ?thesis .
  next
    case False
    then show ?thesis by (simp add: complete_lines_no_nl residue_no_nl)
  qed
qed


lemma residue_append: "residue (t @ d) = residue (residue t @ d)"
proof (cases "NL \<in> set d")
  case True
  then obtain a b where d: "d = a @ NL # b"
    by (auto simp add: in_set_conv_decomp)
  have "residue (t @ d) = residue ((t @ a) @ NL # b)" using d by simp
  also have "\<dots> = residue b" by (rule residue_after_nl)
  also have "\<dots> = residue ((residue t @ a) @ NL # b)" by (rule residue_after_nl [symmetric])
  also have "\<dots> = residue (residue t @ d)" using d by simp
  finally show ?thesis .
next
  case False
  show ?thesis
  proof (cases "NL \<in> set t")
    case True
    then obtain a b where t: "t = a @ NL # b" and b: "NL \<notin> set b"
      using split_list_last [of NL t] by blast
    have "residue t = b"
      using t b by (simp add: residue_after_nl residue_no_nl)
    moreover have "residue (t @ d) = residue (a @ NL # (b @ d))" using t by simp
    then have "residue (t @ d) = residue (b @ d)" by (simp only: residue_after_nl)
    ultimately show ?thesis by simp
  next
    case False
    then show ?thesis by (simp add: residue_no_nl)
  qed
qed

subsection \<open>The loop in terms of the text received\<close>

lemma then_gen_unit_left: "then_gen ([], None) g = g"
  by (simp add: then_gen_def)

lemma then_gen_assoc: "then_gen (then_gen f g) h = then_gen f (then_gen g h)"
  by (simp add: then_gen_def split: prod.splits option.splits)

lemma process_lines_append:
  "process_lines lib (a @ b) = then_gen (process_lines lib a) (process_lines lib b)"
  by (induction a) (simp_all add: then_gen_unit_left then_gen_assoc)

lemma decoded_Cons: "decoded (c # cs) = utf8_decode_ignore c @ decoded cs"
  by (simp add: decoded_def)

lemma stream_loop_lines:
  "NL \<notin> set buffer \<Longrightarrow>
   stream_loop lib buffer (map Chunk cs) = process_lines lib (complete_lines (buffer @ decoded cs))"
proof (induction cs arbitrary: buffer)
  case Nil
  then show ?case by (simp add: decoded_def complete_lines_no_nl)
next
  case (Cons c cs)
  show ?case
  proof (cases "c = []")
    case True
    with Cons show ?thesis
      by (simp add: process_chunk_def then_gen_unit_left decoded_Cons)
  next
    case False
    let ?b = "buffer @ utf8_decode_ignore c"
    have "stream_loop lib buffer (map Chunk (c # cs))
            = then_gen (process_lines lib (complete_lines ?b)) (stream_loop lib (residue ?b) (map Chunk cs))"
      using False by (simp add: process_chunk_def Let_def butlast_split_nl last_split_nl)
    also have "\<dots> = then_gen (process_lines lib (complete_lines ?b))
                        (process_lines lib (complete_lines (residue ?b @ decoded cs)))"
      using Cons.IH [OF residue_has_no_nl] by simp
    also have "\<dots> = process_lines lib (complete_lines (?b @ decoded cs))"
      by (simp only: process_lines_append complete_lines_append [of ?b])
    finally show ?thesis by (simp add: decoded_Cons)
  qed
qed

lemma buffer_fold:
  assumes "NL \<notin> set buffer"
  shows "foldl (\<lambda>buffer chunk. snd (process_chunk lib buffer chunk)) buffer cs
           = residue (buffer @ decoded cs)"
  using assms
proof (induction cs arbitrary: buffer)
  case Nil
  then show ?case by (simp add: decoded_def residue_no_nl)
next
  case (Cons c cs)
  show ?case
  proof (cases "c = []")
    case True
    with Cons show ?thesis by (simp add: process_chunk_def decoded_Cons)
  next
    case False
    let ?b = "buffer @ utf8_decode_ignore c"
    have "foldl (\<lambda>buffer chunk. snd (process_chunk lib buffer chunk)) buffer (c # cs)
            = foldl (\<lambda>buffer chunk. snd (process_chunk lib buffer chunk)) (residue ?b) cs"
      using False by (simp add: process_chunk_def Let_def last_split_nl)
    also have "\<dots> = residue (residue ?b @ decoded cs)"
      by (rule Cons.IH [OF residue_has_no_nl])
    also have "\<dots> = residue (?b @ decoded cs)"
      by (rule residue_append [symmetric])
    finally show ?thesis by (simp add: decoded_Cons)
  qed
qed

text \<open>
  C2. After the loop has gone through any number of chunks, the buffer it holds is what
  stands after the last line feed of the text received so far (the chunks, each decoded as
  line 153 does), and what the loop has yielded, or raised, is what the lines ended by a
  line feed give, one after the other: nothing comes from text that no line feed has yet
  ended.
\<close>

theorem buffer_is_residue_lines_need_newline:
  "retained_buffer lib chunks = residue (decoded chunks)
   \<and> stream_loop lib [] (map Chunk chunks) = process_lines lib (complete_lines (decoded chunks))"
  using buffer_fold [of "[]" lib chunks] stream_loop_lines [of "[]" lib chunks]
  by (simp add: retained_buffer_def)

theorem buffer_is_residue_lines_need_newline_witness:
  "retained_buffer std_lib [hd sample_chunks] = ascii ''da''
   \<and> stream_loop std_lib [] (map Chunk [hd sample_chunks]) = ([JStr (ascii ''AB'')], None)"
proof -
  have "residue (decoded [hd sample_chunks]) = ascii ''da''"
    by (simp add: sample_chunks_def decoded_def residue_def text_defs utf8_defs)
  moreover have "stream_loop std_lib [] (map Chunk [hd sample_chunks]) = ([JStr (ascii ''AB'')], None)"
    by (simp add: sample_chunks_def std_lib_def text_defs utf8_defs json_defs event_defs)
  ultimately show ?thesis
    using buffer_is_residue_lines_need_newline [of std_lib "[hd sample_chunks]"] by simp
qed

subsection \<open>A line that is not JSON\<close>

lemma residue_ends_nl:
  assumes "before = [] \<or> last before = NL"
  shows "residue before = []"
proof (cases "before = []")
  case True
  then show ?thesis by (simp add: residue_def)
next
  case False
  with assms have "before = butlast before @ NL # []"
    using append_butlast_last_id [of before] by simp
  then have "residue before = residue (butlast before @ NL # [])" by simp
  also have "\<dots> = residue []" by (rule residue_after_nl)
  finally show ?thesis by (simp add: residue_def)
qed

lemma complete_lines_first:
  assumes "NL \<notin> set l"
  shows "complete_lines (l @ NL # rest) = l # complete_lines rest"
proof -
  have "takeWhile (\<lambda>c. c \<noteq> NL) (l @ NL # rest) = l"
    using assms by (induction l) auto
  moreover have "dropWhile (\<lambda>c. c \<noteq> NL) (l @ NL # rest) = NL # rest"
    using assms by (induction l) auto
  ultimately show ?thesis
    by (subst complete_lines.simps) simp
qed

lemma malformed_line:
  assumes "py_strip bad = ascii ''data: '' @ data_str"
      and "loads lib data_str = Inl (JSONDecodeError m)"
  shows "process_line lib bad = ([], None)"
proof -
  have "startswith (ascii ''data: '' @ data_str) (ascii ''data: '')"
    by (simp add: startswith_def)
  moreover have "drop 6 (ascii ''data: '' @ data_str) = data_str"
    by (simp add: ascii_def)
  ultimately show ?thesis
    using assms by (simp add: process_line_def Let_def)
qed

text \<open>
  C3. Let the text received hold a complete line \<open>bad\<close> that, stripped, is \<^verbatim>\<open>data: \<close>
  followed by a payload at which \<^verbatim>\<open>json.loads\<close> raises \<^verbatim>\<open>JSONDecodeError\<close>. Then the loop
  yields, and ends, exactly as it does on the same text without that line, however the two
  texts are cut into chunks: the fragments of the lines before it and of the lines after
  it are all there, in order, and the line adds none.
\<close>

theorem malformed_line_skipped:
  assumes "decoded cs = before @ bad @ [NL] @ after"
      and "before = [] \<or> last before = NL"
      and "NL \<notin> set bad"
      and "py_strip bad = ascii ''data: '' @ data_str"
      and "loads lib data_str = Inl (JSONDecodeError m)"
      and "decoded cs' = before @ after"
  shows "stream_loop lib [] (map Chunk cs) = stream_loop lib [] (map Chunk cs')"
proof -
  have r: "residue before = []"
    using assms(2) by (rule residue_ends_nl)
  have "complete_lines (decoded cs) = complete_lines before @ complete_lines (bad @ NL # after)"
    using complete_lines_append [of before "bad @ NL # after"] assms(1) r by simp
  then have l: "complete_lines (decoded cs) = complete_lines before @ bad # complete_lines after"
    by (simp only: complete_lines_first [OF assms(3)])
  have l': "complete_lines (decoded cs') = complete_lines before @ complete_lines after"
    using complete_lines_append [of before after] assms(6) r by simp
  have "stream_loop lib [] (map Chunk cs)
          = then_gen (process_lines lib (complete_lines before))
              (then_gen (process_line lib bad) (process_lines lib (complete_lines after)))"
    using stream_loop_lines [of "[]" lib cs] l by (simp add: process_lines_append)
  also have "\<dots> = then_gen (process_lines lib (complete_lines before))
                       (process_lines lib (complete_lines after))"
    using malformed_line [OF assms(4) assms(5)] by (simp add: then_gen_unit_left)
  also have "\<dots> = stream_loop lib [] (map Chunk cs')"
    using stream_loop_lines [of "[]" lib cs'] l' by (simp add: process_lines_append)
  finally show ?thesis .
qed

theorem malformed_line_skipped_witness:
  "stream_loop std_lib [] (map Chunk mixed_chunks) = ([JStr (ascii ''A''), JStr (ascii ''B'')], None)
   \<and> stream_loop std_lib [] (map Chunk clean_chunks) = ([JStr (ascii ''A''), JStr (ascii ''B'')], None)"
proof -
  have h1: "decoded mixed_chunks
      = ascii ''data: {\"choices\":[{\"delta\":{\"content\":\"A\"}}]}\<newline>''
        @ ascii ''data: {not json'' @ [NL]
        @ ascii ''data: {\"choices\":[{\"delta\":{\"content\":\"B\"}}]}\<newline>''"
    by (simp add: mixed_chunks_def decoded_def text_defs utf8_defs)
  have h2: "ascii ''data: {\"choices\":[{\"delta\":{\"content\":\"A\"}}]}\<newline>'' = []
      \<or> last (ascii ''data: {\"choices\":[{\"delta\":{\"content\":\"A\"}}]}\<newline>'') = NL"
    by (simp add: text_defs)
  have h3: "NL \<notin> set (ascii ''data: {not json'')"
    by (simp add: text_defs)
  have h4: "py_strip (ascii ''data: {not json'') = ascii ''data: '' @ ascii ''{not json''"
    by (simp add: text_defs)
  have h5: "loads std_lib (ascii ''{not json'') = Inl (JSONDecodeError [])"
    by (simp add: std_lib_def text_defs json_defs)
  have h6: "decoded clean_chunks
      = ascii ''data: {\"choices\":[{\"delta\":{\"content\":\"A\"}}]}\<newline>''
        @ ascii ''data: {\"choices\":[{\"delta\":{\"content\":\"B\"}}]}\<newline>''"
    by (simp add: clean_chunks_def decoded_def text_defs utf8_defs)
  have clean: "stream_loop std_lib [] (map Chunk clean_chunks)
      = ([JStr (ascii ''A''), JStr (ascii ''B'')], None)"
    by (simp add: clean_chunks_def std_lib_def text_defs utf8_defs json_defs event_defs)
  show ?thesis
    using malformed_line_skipped [OF h1 h2 h3 h4 h5 h6] clean by simp
qed

subsection \<open>What no line feed ends\<close>

lemma head_of_cases:
  assumes "head_of bs = Some (cp, n)"
  obtains (one) b0 r where "bs = b0 # r" "b0 < 0x80" "cp = b0" "n = 1"
  | (two) b0 b1 r where "bs = b0 # b1 # r" "0xC2 \<le> b0" "b0 \<le> 0xDF" "is_cont b1"
      "cp = (b0 - 0xC0) * 64 + cont_bits b1" "n = 2"
  | (three) b0 b1 b2 r where "bs = b0 # b1 # b2 # r" "0xE0 \<le> b0" "b0 \<le> 0xEF"
      "second_of3 b0 b1" "is_cont b2"
      "cp = (b0 - 0xE0) * 4096 + cont_bits b1 * 64 + cont_bits b2" "n = 3"
  | (four) b0 b1 b2 b3 r where "bs = b0 # b1 # b2 # b3 # r" "0xF0 \<le> b0" "b0 \<le> 0xF4"
      "second_of4 b0 b1" "is_cont b2" "is_cont b3"
      "cp = (b0 - 0xF0) * 262144 + cont_bits b1 * 4096 + cont_bits b2 * 64 + cont_bits b3" "n = 4"
proof (cases bs)
  case Nil
  with assms show ?thesis by simp
next
  case (Cons b0 r)
  show ?thesis
  proof (cases "b0 < 0x80")
    case True
    with assms Cons show ?thesis by (intro one [of b0 r]) simp_all
  next
    case a: False
    show ?thesis
    proof (cases "0xC2 \<le> b0 \<and> b0 \<le> 0xDF")
      case True
      with assms Cons a obtain b1 r' where "r = b1 # r'" "is_cont b1"
        "cp = (b0 - 0xC0) * 64 + cont_bits b1" "n = 2"
        by (cases r) (simp_all split: if_splits)
      with True Cons show ?thesis by (intro two [of b0 b1 r']) simp_all
    next
      case b: False
      show ?thesis
      proof (cases "0xE0 \<le> b0 \<and> b0 \<le> 0xEF")
        case True
        from assms Cons a b True have "r \<noteq> []" by auto
        then obtain b1 r1 where r: "r = b1 # r1" by (cases r) auto
        from assms Cons a b True r have "r1 \<noteq> []" by auto
        then obtain b2 r2 where r1: "r1 = b2 # r2" by (cases r1) auto
        from assms Cons a b True r r1 have "second_of3 b0 b1" "is_cont b2"
          "cp = (b0 - 0xE0) * 4096 + cont_bits b1 * 64 + cont_bits b2" "n = 3"
          by (simp_all split: if_splits)
        with True Cons r r1 show ?thesis by (intro three [of b0 b1 b2 r2]) simp_all
      next
        case c: False
        show ?thesis
        proof (cases "0xF0 \<le> b0 \<and> b0 \<le> 0xF4")
          case True
          from assms Cons a b c True have "r \<noteq> []" by auto
          then obtain b1 r1 where r: "r = b1 # r1" by (cases r) auto
          from assms Cons a b c True r have "r1 \<noteq> []" by auto
          then obtain b2 r2 where r1: "r1 = b2 # r2" by (cases r1) auto
          from assms Cons a b c True r r1 have "r2 \<noteq> []" by auto
          then obtain b3 r3 where r2: "r2 = b3 # r3" by (cases r2) auto
          from assms Cons a b c True r r1 r2 have "second_of4 b0 b1" "is_cont b2" "is_cont b3"
            "cp = (b0 - 0xF0) * 262144 + cont_bits b1 * 4096 + cont_bits b2 * 64 + cont_bits b3"
            "n = 4"
            by (simp_all split: if_splits)
          with True Cons r r1 r2 show ?thesis by (intro four [of b0 b1 b2 b3 r3]) simp_all
        next
          case False
          with assms Cons a b c show ?thesis by simp
        qed
      qed
    qed
  qed
qed

lemma head_of_nl:
  assumes "head_of bs = Some (cp, n)" and "cp = NL"
  shows "\<exists>r. bs = 10 # r"
  using assms(1)
proof (cases rule: head_of_cases)
  case (one b0 r)
  with assms(2) show ?thesis by (simp add: NL_def)
next
  case (two b0 b1 r)
  then have "128 \<le> (b0 - 0xC0) * 64" by simp
  with two assms(2) show ?thesis by (simp add: NL_def)
next
  case (three b0 b1 b2 r)
  show ?thesis
  proof (cases "b0 = 0xE0")
    case True
    with three have "0xA0 \<le> b1" by (simp add: second_of3_def)
    then have "2048 \<le> cont_bits b1 * 64" by (simp add: cont_bits_def)
    with three assms(2) show ?thesis by (simp add: NL_def)
  next
    case False
    with three have "4096 \<le> (b0 - 0xE0) * 4096" by simp
    with three assms(2) show ?thesis by (simp add: NL_def)
  qed
next
  case (four b0 b1 b2 b3 r)
  show ?thesis
  proof (cases "b0 = 0xF0")
    case True
    with four have "0x90 \<le> b1" by (simp add: second_of4_def)
    then have "65536 \<le> cont_bits b1 * 4096" by (simp add: cont_bits_def)
    with four assms(2) show ?thesis by (simp add: NL_def)
  next
    case False
    with four have "262144 \<le> (b0 - 0xF0) * 262144" by simp
    with four assms(2) show ?thesis by (simp add: NL_def)
  qed
qed

lemma utf8_head_nl:
  assumes "utf8_head (b # bs) = Some (cp, n)" and "cp = NL"
  shows "b = 0x0A"
proof -
  have "head_of (unat b # map unat (take 3 bs)) = Some (cp, n)"
    using assms(1) by (simp add: utf8_head_def)
  then have "unat b = 10"
    using head_of_nl [OF _ assms(2)] by blast
  then have "unat b = unat (0x0A :: byte)" by simp
  then show ?thesis by (simp only: word_unat_eq_iff)
qed

lemma decode_no_nl: "0x0A \<notin> set bs \<Longrightarrow> NL \<notin> set (utf8_decode_ignore bs)"
proof (induction bs rule: utf8_decode_ignore.induct)
  case 1
  show ?case by simp
next
  case (2 b bs)
  show ?case
  proof (cases "utf8_head (b # bs)")
    case None
    with 2 show ?thesis by simp
  next
    case (Some a)
    obtain cp n where a: "a = (cp, n)" by (cases a)
    have "cp \<noteq> NL"
      using utf8_head_nl [of b bs cp n] Some a "2.prems" by auto
    moreover have "0x0A \<notin> set (drop (n - 1) bs)"
      using "2.prems" by (auto dest: in_set_dropD)
    ultimately show ?thesis
      using "2.IH"(2) [OF Some a [symmetric]] Some a by simp
  qed
qed

lemma decoded_append: "decoded (cs @ rs) = decoded cs @ decoded rs"
  by (simp add: decoded_def)

lemma decoded_no_nl: "\<forall>r \<in> set rs. 0x0A \<notin> set r \<Longrightarrow> NL \<notin> set (decoded rs)"
  by (auto simp add: decoded_def dest: decode_no_nl)

lemma complete_lines_residual:
  assumes "NL \<notin> set r"
  shows "complete_lines (t @ r) = complete_lines t"
proof -
  have "NL \<notin> set (residue t @ r)"
    using assms residue_has_no_nl [of t] by simp
  then have "complete_lines (residue t @ r) = []"
    by (rule complete_lines_no_nl)
  then show ?thesis
    by (simp add: complete_lines_append [of t r])
qed

text \<open>
  C10. Chunks that hold no line feed, arriving last before the body ends, change nothing:
  the loop yields and ends as it does without them, whatever \<^verbatim>\<open>json.loads\<close> would have
  done with the text they leave in the buffer.
\<close>

theorem unterminated_residue_discarded:
  assumes "\<forall>r \<in> set rs. 0x0A \<notin> set r"
  shows "stream_loop lib [] (map Chunk (cs @ rs)) = stream_loop lib [] (map Chunk cs)"
proof -
  have "stream_loop lib [] (map Chunk (cs @ rs))
          = process_lines lib (complete_lines (decoded cs @ decoded rs))"
    using stream_loop_lines [of "[]" lib "cs @ rs"] by (simp add: decoded_append)
  also have "\<dots> = process_lines lib (complete_lines (decoded cs))"
    by (simp only: complete_lines_residual [OF decoded_no_nl [OF assms]])
  also have "\<dots> = stream_loop lib [] (map Chunk cs)"
    using stream_loop_lines [of "[]" lib cs] by simp
  finally show ?thesis .
qed

theorem unterminated_residue_discarded_witness:
  "stream_loop std_lib [] (map Chunk (clean_chunks @ unterminated_chunks))
     = ([JStr (ascii ''A''), JStr (ascii ''B'')], None)"
proof -
  have h: "\<forall>r \<in> set unterminated_chunks. 0x0A \<notin> set r"
    by (simp add: unterminated_chunks_def bytes_of_def)
  have "stream_loop std_lib [] (map Chunk clean_chunks)
      = ([JStr (ascii ''A''), JStr (ascii ''B'')], None)"
    by (simp add: clean_chunks_def std_lib_def text_defs utf8_defs json_defs event_defs)
  then show ?thesis
    using unterminated_residue_discarded [OF h, of std_lib clean_chunks] by simp
qed

section \<open>A status other than 200\<close>

lemma extract_is_field:
  "(case extract_error_message lib body of Inr (Some m) \<Rightarrow> Some m | _ \<Rightarrow> None)
     = error_field lib body"
proof (cases "loads lib body")
  case (Inl e)
  then show ?thesis
    by (simp add: extract_error_message_def error_field_def bind_def)
next
  case (Inr v)
  show ?thesis
  proof (cases v)
    case (JObj members)
    show ?thesis
    proof (cases "map_of members (ascii ''error'')")
      case None
      with Inr JObj show ?thesis
        by (simp add: extract_error_message_def error_field_def bind_def)
    next
      case (Some err)
      with Inr JObj show ?thesis
        by (cases err)
           (auto simp add: extract_error_message_def error_field_def bind_def
                 split: option.splits)
    qed
  qed (use Inr in \<open>simp_all add: extract_error_message_def error_field_def bind_def\<close>)
qed

lemma error_fragment_by_field:
  "error_fragment lib code body
     = JStr (system_error_prefix @
         (case error_field lib body of
            Some (JStr s) \<Rightarrow> s
          | Some m \<Rightarrow> str_obj lib m
          | None \<Rightarrow> api_error_prefix @ str_int code @ ascii '')''))"
proof (cases "error_field lib body")
  case None
  then have "\<not> (\<exists>m. extract_error_message lib body = Inr (Some m))"
    using extract_is_field [of lib body] by auto
  then have "(case extract_error_message lib body of
                Inr (Some m) \<Rightarrow> m
              | _ \<Rightarrow> JStr (api_error_prefix @ str_int code @ ascii '')''))
             = JStr (api_error_prefix @ str_int code @ ascii '')'')"
    by (auto split: sum.splits option.splits)
  with None show ?thesis
    by (simp add: error_fragment_def Let_def py_str_def)
next
  case (Some m)
  then have "extract_error_message lib body = Inr (Some m)"
    using extract_is_field [of lib body] by (auto split: sum.splits option.splits)
  with Some show ?thesis
    by (cases m) (simp_all add: error_fragment_def Let_def py_str_def)
qed

lemma call_fst:
  "fst (call_deepseek_api lib cfg net messages stream st)
     = guarded lib (try_block lib stream
         (net (post_request cfg (fst (get_session st)) messages stream)))"
  by (simp add: call_deepseek_api_def Let_def case_prod_beta)

text \<open>
  C4. When the request is answered with a status other than 200 and the body of the answer
  is read as \<open>body\<close>, \<^verbatim>\<open>_call_deepseek_api\<close> yields one fragment and ends, for either value
  of \<^verbatim>\<open>stream\<close> and whatever the chunks of the body are. The fragment is the system-error
  mark followed by the \<^verbatim>\<open>error.message\<close> of the body when the body is JSON with that field
  (the text itself when it is a string, \<^verbatim>\<open>str()\<close> of it otherwise), and by the text with the
  status code in every other case.
\<close>

theorem http_error_single_fragment:
  assumes "net (post_request cfg (fst (get_session st)) messages stream) = Inr resp"
      and "status resp \<noteq> 200"
      and "body_text resp = Inr body"
  shows "fst (call_deepseek_api lib cfg net messages stream st)
           = ([JStr (system_error_prefix @
                 (case error_field lib body of
                    Some (JStr s) \<Rightarrow> s
                  | Some m \<Rightarrow> str_obj lib m
                  | None \<Rightarrow> api_error_prefix @ str_int (status resp) @ ascii '')''))], None)"
proof -
  have "try_block lib stream (Inr resp) = ([error_fragment lib (status resp) body], None)"
    using assms(2,3) by (simp add: try_block_def)
  then have "fst (call_deepseek_api lib cfg net messages stream st)
               = ([error_fragment lib (status resp) body], None)"
    using assms(1) by (simp add: call_fst guarded_def)
  then show ?thesis
    by (simp only: error_fragment_by_field)
qed

theorem http_error_single_fragment_witness:
  "fst (call_deepseek_api std_lib default_config
          (answer 429 (ascii ''{\"error\":{\"message\":\"rate limited\"}}'') sample_chunks)
          (JArr []) True initial_state)
     = ([JStr (system_error_prefix @ ascii ''rate limited'')], None)
   \<and> fst (call_deepseek_api std_lib default_config
          (answer 502 (ascii ''Bad Gateway'') sample_chunks) (JArr []) True initial_state)
     = ([JStr (system_error_prefix @ api_error_prefix @ ascii ''502)'')], None)"
proof -
  let ?b1 = "ascii ''{\"error\":{\"message\":\"rate limited\"}}''"
  let ?r1 = "\<lparr>status = 429, body_text = Inr ?b1, body_json = json_loads ?b1,
              content = map Chunk sample_chunks\<rparr>"
  let ?b2 = "ascii ''Bad Gateway''"
  let ?r2 = "\<lparr>status = 502, body_text = Inr ?b2, body_json = json_loads ?b2,
              content = map Chunk sample_chunks\<rparr>"
  have f1: "error_field std_lib ?b1 = Some (JStr (ascii ''rate limited''))"
    by (simp add: error_field_def std_lib_def text_defs json_defs)
  have f2: "error_field std_lib ?b2 = None"
    by (simp add: error_field_def std_lib_def text_defs json_defs)
  have d: "str_int 502 = ascii ''502''"
    by (simp add: str_int_def digits.simps ascii_def)
  have "fst (call_deepseek_api std_lib default_config (answer 429 ?b1 sample_chunks)
               (JArr []) True initial_state)
          = ([JStr (system_error_prefix @ ascii ''rate limited'')], None)"
    using http_error_single_fragment [of "answer 429 ?b1 sample_chunks" default_config initial_state "JArr []" True
                 ?r1 ?b1 std_lib] f1
    by (simp add: answer_def)
  moreover have "fst (call_deepseek_api std_lib default_config (answer 502 ?b2 sample_chunks)
               (JArr []) True initial_state)
          = ([JStr (system_error_prefix @ api_error_prefix @ ascii ''502)'')], None)"
    using http_error_single_fragment [of "answer 502 ?b2 sample_chunks" default_config initial_state "JArr []" True
                 ?r2 ?b2 std_lib] f2 d
    by (simp add: answer_def ascii_def)
  ultimately show ?thesis by simp
qed

section \<open>Exceptions\<close>

lemma guarded_outcome:
  "snd (guarded lib g) = Some e \<Longrightarrow> \<not> is_Exception e"
proof -
  assume a: "snd (guarded lib g) = Some e"
  obtain out r where g: "g = (out, r)" by (cases g)
  show ?thesis
  proof (cases r)
    case None
    with a g show ?thesis by (simp add: guarded_def)
  next
    case (Some x)
    with a g show ?thesis by (cases x) (auto simp add: guarded_def)
  qed
qed

lemma failure_after_chunks:
  "stream_loop lib buffer (map Chunk cs @ [Failure e])
     = then_gen (stream_loop lib buffer (map Chunk cs)) ([], Some e)"
proof (induction cs arbitrary: buffer)
  case Nil
  show ?case by (simp add: then_gen_def)
next
  case (Cons c cs)
  obtain g b where p: "process_chunk lib buffer c = (g, b)"
    by (cases "process_chunk lib buffer c")
  show ?case
    using Cons [of b] p by (simp add: then_gen_assoc)
qed

lemma tb_failing: "try_block lib stream (failing e req) = ([], Some e)"
  by (simp add: try_block_def failing_def)

lemma tb_breaking:
  "try_block lib True (breaking cs e req) = then_gen (stream_loop lib [] (map Chunk cs)) ([], Some e)"
  by (simp add: try_block_def breaking_def failure_after_chunks)

text \<open>
  C5. Whatever leaves \<^verbatim>\<open>_call_deepseek_api\<close>, or either streaming operation, as an exception
  is not an \<^verbatim>\<open>Exception\<close>: every failure of \<^verbatim>\<open>session.post\<close>, of reading the body or of
  handling an event ends in fragments. A failure of \<^verbatim>\<open>session.post\<close> comes before any
  fragment. After the fragments \<open>out\<close> the body had yielded, a connection failure adds the
  connection diagnostic and the checklist, a timeout adds the timeout diagnostic, another
  client error adds the request diagnostic, and any other \<^verbatim>\<open>Exception\<close> adds the generic
  diagnostic with its description; then the sequence ends.
\<close>

theorem failures_become_fragments:
  "(\<forall>e. snd (fst (call_deepseek_api lib cfg net messages stream st)) = Some e \<longrightarrow> \<not> is_Exception e)
   \<and> (\<forall>e. snd (fst (translate_pm_to_dev_stream lib cfg net text st)) = Some e \<longrightarrow> \<not> is_Exception e)
   \<and> (\<forall>e. snd (fst (translate_dev_to_pm_stream lib cfg net text st)) = Some e \<longrightarrow> \<not> is_Exception e)
   \<and> (\<forall>e. net (post_request cfg (fst (get_session st)) messages stream) = Inl e \<longrightarrow>
         try_block lib stream (net (post_request cfg (fst (get_session st)) messages stream))
           = ([], Some e))
   \<and> (\<forall>out m. try_block lib stream (net (post_request cfg (fst (get_session st)) messages stream))
           = (out, Some (ClientConnectorError m)) \<longrightarrow>
         fst (call_deepseek_api lib cfg net messages stream st)
           = (out @ [JStr (network_error_prefix @ str_exn lib (ClientConnectorError m)),
                     JStr checklist], None))
   \<and> (\<forall>out. try_block lib stream (net (post_request cfg (fst (get_session st)) messages stream))
           = (out, Some TimeoutError) \<longrightarrow>
         fst (call_deepseek_api lib cfg net messages stream st)
           = (out @ [JStr timeout_message], None))
   \<and> (\<forall>out m. try_block lib stream (net (post_request cfg (fst (get_session st)) messages stream))
           = (out, Some (ClientError m)) \<longrightarrow>
         fst (call_deepseek_api lib cfg net messages stream st)
           = (out @ [JStr (http_error_prefix @ str_exn lib (ClientError m))], None))
   \<and> (\<forall>out e. try_block lib stream (net (post_request cfg (fst (get_session st)) messages stream))
           = (out, Some e) \<and> is_Exception e \<and> e \<noteq> TimeoutError
           \<and> (\<forall>m. e \<noteq> ClientConnectorError m \<and> e \<noteq> ClientError m) \<longrightarrow>
         fst (call_deepseek_api lib cfg net messages stream st)
           = (out @ [JStr (unknown_error_prefix @ str_exn lib e)], None))"
proof (intro conjI allI impI)
  fix e
  assume "snd (fst (call_deepseek_api lib cfg net messages stream st)) = Some e"
  then show "\<not> is_Exception e"
    by (auto simp add: call_fst dest: guarded_outcome)
next
  fix e
  assume a: "snd (fst (translate_pm_to_dev_stream lib cfg net text st)) = Some e"
  then show "\<not> is_Exception e"
    by (auto simp add: translate_pm_to_dev_stream_def call_fst split: if_splits
             dest: guarded_outcome)
next
  fix e
  assume a: "snd (fst (translate_dev_to_pm_stream lib cfg net text st)) = Some e"
  then show "\<not> is_Exception e"
    by (auto simp add: translate_dev_to_pm_stream_def call_fst split: if_splits
             dest: guarded_outcome)
next
  fix e
  assume "net (post_request cfg (fst (get_session st)) messages stream) = Inl e"
  then show "try_block lib stream (net (post_request cfg (fst (get_session st)) messages stream))
           = ([], Some e)"
    by (simp add: try_block_def)
next
  fix out m
  assume "try_block lib stream (net (post_request cfg (fst (get_session st)) messages stream))
           = (out, Some (ClientConnectorError m))"
  then show "fst (call_deepseek_api lib cfg net messages stream st)
           = (out @ [JStr (network_error_prefix @ str_exn lib (ClientConnectorError m)),
                     JStr checklist], None)"
    by (simp add: call_fst guarded_def)
next
  fix out
  assume "try_block lib stream (net (post_request cfg (fst (get_session st)) messages stream))
           = (out, Some TimeoutError)"
  then show "fst (call_deepseek_api lib cfg net messages stream st)
           = (out @ [JStr timeout_message], None)"
    by (simp add: call_fst guarded_def)
next
  fix out m
  assume "try_block lib stream (net (post_request cfg (fst (get_session st)) messages stream))
           = (out, Some (ClientError m))"
  then show "fst (call_deepseek_api lib cfg net messages stream st)
           = (out @ [JStr (http_error_prefix @ str_exn lib (ClientError m))], None)"
    by (simp add: call_fst guarded_def)
next
  fix out e
  assume a: "try_block lib stream (net (post_request cfg (fst (get_session st)) messages stream))
           = (out, Some e) \<and> is_Exception e \<and> e \<noteq> TimeoutError
           \<and> (\<forall>m. e \<noteq> ClientConnectorError m \<and> e \<noteq> ClientError m)"
  then have "on_exception lib e = ([JStr (unknown_error_prefix @ str_exn lib e)], None)"
    by (cases e) simp_all
  with a show "fst (call_deepseek_api lib cfg net messages stream st)
           = (out @ [JStr (unknown_error_prefix @ str_exn lib e)], None)"
    by (simp add: call_fst guarded_def)
qed

theorem failures_become_fragments_witness:
  "fst (translate_pm_to_dev_stream std_lib default_config
          (failing (ClientConnectorError (ascii ''refused''))) (ascii ''x'') initial_state)
     = ([JStr (network_error_prefix @ ascii ''refused''), JStr checklist], None)
   \<and> fst (translate_dev_to_pm_stream std_lib default_config
          (breaking sample_chunks TimeoutError) (ascii ''x'') initial_state)
     = ([JStr (ascii ''AB''), JStr (ascii ''C''), JStr timeout_message], None)
   \<and> fst (call_deepseek_api std_lib default_config
          (failing (ClientError (ascii ''reset''))) (JArr []) True initial_state)
     = ([JStr (http_error_prefix @ ascii ''reset'')], None)
   \<and> fst (call_deepseek_api std_lib default_config
          (breaking sample_chunks (OtherException (ascii ''boom''))) (JArr []) True initial_state)
     = ([JStr (ascii ''AB''), JStr (ascii ''C''), JStr (unknown_error_prefix @ ascii ''boom'')], None)
   \<and> snd (fst (call_deepseek_api std_lib default_config
          (failing (NonException (ascii ''cancelled''))) (JArr []) True initial_state))
     = Some (NonException (ascii ''cancelled''))"
proof -
  have s: "str_exn std_lib = exn_text" by (simp add: std_lib_def)
  have b: "\<And>e. then_gen (stream_loop std_lib [] (map Chunk sample_chunks)) ([], Some e)
            = ([JStr (ascii ''AB''), JStr (ascii ''C'')], Some e)"
    by (simp add: sample_stream then_gen_def)
  have "fst (translate_pm_to_dev_stream std_lib default_config
          (failing (ClientConnectorError (ascii ''refused''))) (ascii ''x'') initial_state)
     = ([JStr (network_error_prefix @ ascii ''refused''), JStr checklist], None)"
    using failures_become_fragments [where lib = std_lib and cfg = default_config and st = initial_state
                and net = "failing (ClientConnectorError (ascii ''refused''))" and stream = True
                and messages = "create_messages default_config (ascii ''x'') (ascii ''pm-to-dev'')"]
    by (simp add: translate_pm_to_dev_stream_def strip_x tb_failing s)
  moreover have "fst (translate_dev_to_pm_stream std_lib default_config
          (breaking sample_chunks TimeoutError) (ascii ''x'') initial_state)
     = ([JStr (ascii ''AB''), JStr (ascii ''C''), JStr timeout_message], None)"
    using failures_become_fragments [where lib = std_lib and cfg = default_config and st = initial_state
                and net = "breaking sample_chunks TimeoutError" and stream = True
                and messages = "create_messages default_config (ascii ''x'') (ascii ''dev-to-pm'')"]
    by (simp add: translate_dev_to_pm_stream_def strip_x tb_breaking b)
  moreover have "fst (call_deepseek_api std_lib default_config
          (failing (ClientError (ascii ''reset''))) (JArr []) True initial_state)
     = ([JStr (http_error_prefix @ ascii ''reset'')], None)"
    using failures_become_fragments [where lib = std_lib and cfg = default_config and st = initial_state
                and net = "failing (ClientError (ascii ''reset''))" and stream = True
                and messages = "JArr []"]
    by (simp add: tb_failing s)
  moreover have "fst (call_deepseek_api std_lib default_config
          (breaking sample_chunks (OtherException (ascii ''boom''))) (JArr []) True initial_state)
     = ([JStr (ascii ''AB''), JStr (ascii ''C''), JStr (unknown_error_prefix @ ascii ''boom'')], None)"
    using failures_become_fragments [where lib = std_lib and cfg = default_config and st = initial_state
                and net = "breaking sample_chunks (OtherException (ascii ''boom''))" and stream = True
                and messages = "JArr []"]
    by (simp add: tb_breaking b s)
  moreover have "snd (fst (call_deepseek_api std_lib default_config
          (failing (NonException (ascii ''cancelled''))) (JArr []) True initial_state))
     = Some (NonException (ascii ''cancelled''))"
    by (simp add: call_fst tb_failing guarded_def)
  ultimately show ?thesis by simp
qed

section \<open>Decoding a chunk\<close>

lemma second_of3_low:
  assumes "second_of3 b0 b1" "0xE0 \<le> b0" "b0 \<le> 0xEF"
  shows "0x80 \<le> b1 \<and> b1 \<le> 0xBF \<and> 0x800 \<le> (b0 - 0xE0) * 4096 + (b1 - 0x80) * 64"
proof (cases "b0 = 0xE0")
  case True
  with assms have "0xA0 \<le> b1" "b1 \<le> 0xBF" by (simp_all add: second_of3_def)
  then have "32 \<le> b1 - 0x80" "0x80 \<le> b1" "b1 \<le> 0xBF" by arith+
  with True show ?thesis by simp
next
  case False
  with assms have "1 \<le> b0 - 0xE0" by simp
  then have "4096 \<le> (b0 - 0xE0) * 4096" by simp
  moreover have "0x80 \<le> b1 \<and> b1 \<le> 0xBF"
    using assms(1) False by (simp add: second_of3_def is_cont_def split: if_splits)
  ultimately show ?thesis by simp
qed

lemma second_of4_low:
  assumes "second_of4 b0 b1" "0xF0 \<le> b0" "b0 \<le> 0xF4"
  shows "0x80 \<le> b1 \<and> b1 \<le> 0xBF \<and> 0x10000 \<le> (b0 - 0xF0) * 262144 + (b1 - 0x80) * 4096"
proof (cases "b0 = 0xF0")
  case True
  with assms have "0x90 \<le> b1" "b1 \<le> 0xBF" by (simp_all add: second_of4_def)
  then have "16 \<le> b1 - 0x80" "0x80 \<le> b1" "b1 \<le> 0xBF" by arith+
  with True show ?thesis by simp
next
  case False
  with assms have "1 \<le> b0 - 0xF0" by simp
  then have "262144 \<le> (b0 - 0xF0) * 262144" by simp
  moreover have "0x80 \<le> b1 \<and> b1 \<le> 0xBF"
    using assms(1) False by (simp add: second_of4_def is_cont_def split: if_splits)
  ultimately show ?thesis by simp
qed

lemma enc2:
  fixes a c :: nat
  assumes "2 \<le> a" "a < 32" "c < 64"
  shows "encode_cp (a * 64 + c) = [0xC0 + a, 0x80 + c]"
proof -
  have "128 \<le> a * 64 + c" "a * 64 + c < 0x800" using assms by simp_all
  moreover have "(a * 64 + c) div 64 = a" "(a * 64 + c) mod 64 = c" using assms by simp_all
  ultimately show ?thesis by (simp add: encode_cp_def)
qed

lemma split64:
  fixes k d :: nat
  assumes "d < 64"
  shows "(k * 64 + d) mod 64 = d" and "(k * 64 + d) div 64 = k"
  using assms by simp_all

lemma enc3:
  fixes a c d :: nat
  assumes "a < 16" "c < 64" "d < 64" "0x800 \<le> a * 4096 + c * 64"
  shows "encode_cp (a * 4096 + c * 64 + d) = [0xE0 + a, 0x80 + c, 0x80 + d]"
proof -
  let ?cp = "a * 4096 + c * 64 + d"
  have r: "0x800 \<le> ?cp" "?cp < 0x10000" using assms by simp_all
  have f: "?cp = (a * 64 + c) * 64 + d" by simp
  have m: "?cp mod 64 = d"
    by (subst f) (rule split64(1) [OF assms(3)])
  have d64: "?cp div 64 = a * 64 + c"
    by (subst f) (rule split64(2) [OF assms(3)])
  have dm: "?cp div 64 mod 64 = c"
    by (subst d64) (rule split64(1) [OF assms(2)])
  have "?cp div 4096 = a" using assms by simp
  then show ?thesis using r m dm by (simp add: encode_cp_def)
qed

lemma enc4:
  fixes a c d e :: nat
  assumes "a < 5" "c < 64" "d < 64" "e < 64" "0x10000 \<le> a * 262144 + c * 4096"
  shows "encode_cp (a * 262144 + c * 4096 + d * 64 + e) = [0xF0 + a, 0x80 + c, 0x80 + d, 0x80 + e]"
proof -
  let ?cp = "a * 262144 + c * 4096 + d * 64 + e"
  have r: "0x10000 \<le> ?cp" using assms by simp
  have f: "?cp = ((a * 64 + c) * 64 + d) * 64 + e" by simp
  have m: "?cp mod 64 = e"
    by (subst f) (rule split64(1) [OF assms(4)])
  have d64: "?cp div 64 = (a * 64 + c) * 64 + d"
    by (subst f) (rule split64(2) [OF assms(4)])
  have dm: "?cp div 64 mod 64 = d"
    by (subst d64) (rule split64(1) [OF assms(3)])
  have "?cp div 4096 = a * 64 + c" using assms by simp
  then have dm2: "?cp div 4096 mod 64 = c"
    using split64(1) [OF assms(2), of a] by simp
  have "?cp div 262144 = a" using assms by simp
  then show ?thesis using r m dm dm2 by (simp add: encode_cp_def)
qed

lemma head_of_encode:
  assumes "head_of bs = Some (cp, n)"
  shows "encode_cp cp = take n bs"
  using assms
proof (cases rule: head_of_cases)
  case (one b0 r)
  then show ?thesis by (simp add: encode_cp_def)
next
  case (two b0 b1 r)
  then have "0x80 \<le> b1" "b1 \<le> 0xBF" by (simp_all add: is_cont_def)
  with two have "2 \<le> b0 - 0xC0" "b0 - 0xC0 < 32" "b1 - 0x80 < 64" "0x80 \<le> b1" "0xC0 \<le> b0"
    by arith+
  then show ?thesis
    using enc2 [of "b0 - 0xC0" "b1 - 0x80"] two by (simp add: cont_bits_def)
next
  case (three b0 b1 b2 r)
  have s: "0x80 \<le> b1 \<and> b1 \<le> 0xBF \<and> 0x800 \<le> (b0 - 0xE0) * 4096 + (b1 - 0x80) * 64"
    using three by (intro second_of3_low) simp_all
  have "0x80 \<le> b2" "b2 \<le> 0xBF" using three by (simp_all add: is_cont_def)
  with three s have "b0 - 0xE0 < 16" "b1 - 0x80 < 64" "b2 - 0x80 < 64" "0x80 \<le> b2"
    by arith+
  then show ?thesis
    using enc3 [of "b0 - 0xE0" "b1 - 0x80" "b2 - 0x80"] three s by (simp add: cont_bits_def)
next
  case (four b0 b1 b2 b3 r)
  have s: "0x80 \<le> b1 \<and> b1 \<le> 0xBF \<and> 0x10000 \<le> (b0 - 0xF0) * 262144 + (b1 - 0x80) * 4096"
    using four by (intro second_of4_low) simp_all
  have "0x80 \<le> b2" "b2 \<le> 0xBF" "0x80 \<le> b3" "b3 \<le> 0xBF"
    using four by (simp_all add: is_cont_def)
  with four s have "b0 - 0xF0 < 5" "b1 - 0x80 < 64" "b2 - 0x80 < 64" "b3 - 0x80 < 64"
    "0x80 \<le> b2" "0x80 \<le> b3"
    by arith+
  then show ?thesis
    using enc4 [of "b0 - 0xF0" "b1 - 0x80" "b2 - 0x80" "b3 - 0x80"] four s
    by (simp add: cont_bits_def)
qed

lemma head_of_length:
  assumes "head_of bs = Some (cp, n)"
  shows "0 < n \<and> n \<le> 4"
  using assms by (cases rule: head_of_cases) simp_all

lemma bytes_back: "map of_nat (map unat (bs :: byte list)) = bs"
  by (induction bs) simp_all

lemma utf8_head_encode:
  assumes "utf8_head bs = Some (cp, n)"
  shows "utf8_encode_cp cp = take n bs \<and> 0 < n"
proof -
  have h: "head_of (map unat (take 4 bs)) = Some (cp, n)"
    using assms by (simp add: utf8_head_def)
  then have n: "0 < n \<and> n \<le> 4" by (rule head_of_length)
  have "utf8_encode_cp cp = map of_nat (take n (map unat (take 4 bs)))"
    using head_of_encode [OF h] by (simp add: utf8_encode_cp_def)
  also have "\<dots> = take n (take 4 bs)"
    by (simp only: take_map bytes_back)
  also have "\<dots> = take n bs"
    using n by (simp add: min_def)
  finally show ?thesis using n by simp
qed

lemma decode_only_drops: "subseq (utf8_encode (utf8_decode_ignore bs)) bs"
proof (induction bs rule: utf8_decode_ignore.induct)
  case 1
  show ?case by (simp add: utf8_encode_def)
next
  case (2 b bs)
  show ?case
  proof (cases "utf8_head (b # bs)")
    case None
    with 2 show ?thesis
      using subseq_drop_many [of "utf8_encode (utf8_decode_ignore bs)" bs "[b]"] by simp
  next
    case (Some a)
    obtain cp n where a: "a = (cp, n)" by (cases a)
    have e: "utf8_encode_cp cp = take n (b # bs)" and n: "0 < n"
      using utf8_head_encode [of "b # bs" cp n] Some a by simp_all
    have d: "drop n (b # bs) = drop (n - 1) bs"
      using n by (cases n) simp_all
    have "subseq (utf8_encode (utf8_decode_ignore (drop (n - 1) bs))) (drop (n - 1) bs)"
      using "2.IH"(2) [OF Some a [symmetric]] .
    then have "subseq (take n (b # bs) @ utf8_encode (utf8_decode_ignore (drop (n - 1) bs)))
                 (take n (b # bs) @ drop n (b # bs))"
      using d by (simp only: subseq_append')
    then show ?thesis
      using Some a e by (simp add: utf8_encode_def)
  qed
qed

lemma decode_ascii:
  "\<forall>b \<in> set bs. b < 0x80 \<Longrightarrow> utf8_decode_ignore bs = map unat bs"
proof (induction bs)
  case Nil
  show ?case by simp
next
  case (Cons b bs)
  then have "b < 0x80" by simp
  then have "unat b < 128" by (simp add: word_less_nat_alt)
  then have "utf8_head (b # bs) = Some (unat b, 1)"
    by (simp add: utf8_head_def)
  with Cons show ?case by simp
qed

lemma chunk_goes_through:
  "chunk \<noteq> [] \<Longrightarrow>
   process_chunk lib buffer chunk
     = (process_lines lib (complete_lines (buffer @ utf8_decode_ignore chunk)),
        residue (buffer @ utf8_decode_ignore chunk))"
  by (simp add: process_chunk_def Let_def butlast_split_nl last_split_nl)

text \<open>
  C8, as the code has it. Decoding a chunk gives a text for every list of bytes, and the
  loop goes on with it. The handler is \<^verbatim>\<open>'ignore'\<close>, not \<^verbatim>\<open>'replace'\<close>: bytes are only ever
  left out, so the text, encoded again, is a subsequence of the chunk, and a chunk of ASCII
  bytes is decoded byte by byte.
\<close>

theorem invalid_bytes_dropped:
  "subseq (utf8_encode (utf8_decode_ignore chunk)) chunk
   \<and> ((\<forall>b \<in> set chunk. b < 0x80) \<longrightarrow> utf8_decode_ignore chunk = map unat chunk)
   \<and> (chunk \<noteq> [] \<longrightarrow>
        process_chunk lib buffer chunk
          = (process_lines lib (complete_lines (buffer @ utf8_decode_ignore chunk)),
             residue (buffer @ utf8_decode_ignore chunk)))"
  using decode_only_drops [of chunk] decode_ascii [of chunk] chunk_goes_through [of chunk lib buffer]
  by blast

theorem invalid_bytes_dropped_witness:
  "utf8_decode_ignore [0x41, 0x0A, 0x42] = [0x41, 0x0A, 0x42]
   \<and> subseq (utf8_encode [0x41, 0x597D]) [0x41, 0xFF, 0xE5, 0xA5, 0xBD, 0xC3]
   \<and> process_chunk std_lib [0x61] [0xFF, 0x0A, 0xE5, 0xA5, 0xBD, 0xC3] = (([], None), [0x597D])"
proof -
  have a: "\<forall>b \<in> set [0x41, 0x0A, 0x42 :: byte]. b < 0x80" by simp
  have d: "utf8_decode_ignore [0x41, 0xFF, 0xE5, 0xA5, 0xBD, 0xC3] = [0x41, 0x597D]"
    by (simp add: utf8_defs)
  have n: "[0xFF, 0x0A, 0xE5, 0xA5, 0xBD, 0xC3 :: byte] \<noteq> []" by simp
  have p: "process_chunk std_lib [0x61] [0xFF, 0x0A, 0xE5, 0xA5, 0xBD, 0xC3] = (([], None), [0x597D])"
    by (simp add: process_chunk_def process_line_def then_gen_def utf8_defs text_defs)
  show ?thesis
    using invalid_bytes_dropped [of "[0x41, 0x0A, 0x42]" std_lib "[]"]
          invalid_bytes_dropped [of "[0x41, 0xFF, 0xE5, 0xA5, 0xBD, 0xC3]" std_lib "[]"]
          invalid_bytes_dropped [of "[0xFF, 0x0A, 0xE5, 0xA5, 0xBD, 0xC3]" std_lib "[0x61]"] a d n p
    by simp
qed

text \<open>
  The claim as written fails: the byte FF between \<^verbatim>\<open>A\<close> and \<^verbatim>\<open>B\<close> leaves the buffer
  \<^verbatim>\<open>AB\<close>, with nothing in its place.
\<close>

theorem invalid_byte_not_replaced:
  "process_chunk std_lib [] [0x41, 0xFF, 0x42] = (([], None), [0x41, 0x42])"
  by (simp add: process_chunk_def utf8_defs NL_def)

section \<open>Chunk boundaries\<close>

lemma same_text_same_fragments:
  assumes "decoded cs = decoded cs'"
  shows "stream_loop lib [] (map Chunk cs) = stream_loop lib [] (map Chunk cs')"
  using stream_loop_lines [of "[]" lib cs] stream_loop_lines [of "[]" lib cs'] assms
  by simp

lemma decoded_ascii:
  assumes "\<forall>b \<in> set (concat cs). b < 0x80"
  shows "decoded cs = map unat (concat cs)"
  using assms by (induction cs) (simp_all add: decoded_def decode_ascii)

lemma ascii_splits_agree:
  assumes "concat cs = concat cs'" and "\<forall>b \<in> set (concat cs). b < 0x80"
  shows "stream_loop lib [] (map Chunk cs) = stream_loop lib [] (map Chunk cs')"
proof -
  have "decoded cs = map unat (concat cs)"
    using assms(2) by (rule decoded_ascii)
  moreover have "decoded cs' = map unat (concat cs')"
    using assms by (intro decoded_ascii) simp
  ultimately show ?thesis
    using assms(1) by (intro same_text_same_fragments) simp
qed

text \<open>
  C1. The claim fails on the code. The two lists of chunks below are the same bytes, a
  well-formed stream of one event and the end marker; the event's content is the character
  U+597D. Received in one chunk the stream yields that character. Cut inside the character
  it yields nothing: line 153 decodes each chunk on its own and leaves out the bytes of
  the character on both sides of the cut. (Two splits of the same bytes do agree when the
  bytes are ASCII, by \<open>ascii_splits_agree\<close>, and whenever the decoded texts agree.)
\<close>

theorem split_character_lost:
  "concat hao_split = concat hao_whole
   \<and> fst (translate_pm_to_dev_stream std_lib default_config (answer 200 [] hao_whole)
            (ascii ''x'') initial_state) = ([JStr [0x597D]], None)
   \<and> fst (translate_pm_to_dev_stream std_lib default_config (answer 200 [] hao_split)
            (ascii ''x'') initial_state) = ([], None)"
proof -
  have c: "concat hao_split = concat hao_whole"
    by (simp add: hao_split_def hao_whole_def)
  have w: "stream_loop std_lib [] (map Chunk hao_whole) = ([JStr [0x597D]], None)"
    by (simp add: hao_whole_def std_lib_def text_defs utf8_defs json_defs event_defs)
  have s: "stream_loop std_lib [] (map Chunk hao_split) = ([], None)"
    by (simp add: hao_split_def std_lib_def text_defs utf8_defs json_defs event_defs)
  show ?thesis
    using c w s
    by (simp add: translate_pm_to_dev_stream_def strip_x call_defs)
qed

end
